theory Spec2Isabelle
  imports Main "HOL-Library.Multiset"
begin

section \<open>Values and their types\<close>

text \<open>
  The interpreter handles every value through the interface \<open>ref.Value\<close>. The concrete value
  system lives in the package \<open>types\<close>, which is not among the sources; the constructors below
  are the values the interpreter itself builds or inspects (\<open>types.NewErr\<close>, \<open>types.Unknown\<close>,
  \<open>types.String\<close>, \<open>types.NewDynamicList\<close>, \<open>types.NewDynamicMap\<close>, the objects of the type
  provider), two scalars for examples, and Go's nil interface value.
\<close>

datatype val =
    NilValue
  | Err string
  | Unknown "int list"
  | String string
  | Int_val int
  | Bool bool
  | DynamicList "val list"
  | DynamicMap "(val \<times> val) list"
  | Object string "(string \<times> val) list"

datatype ref_type =
    ErrType | UnknownType | StringType | IntType | BoolType | ListType | MapType
  | ObjectType string

datatype fault =
    NilDereference    \<comment> \<open>a method called on the nil interface value\<close>
  | JumpedTooFar      \<comment> \<open>\<open>panic("jumped too far")\<close>\<close>
  | NoParent          \<comment> \<open>\<open>Parent()\<close> of an activation that has none\<close>
  | TypeAssertion     \<comment> \<open>a type assertion \<open>v.(T)\<close> on a value that is not a \<open>T\<close>\<close>

text \<open>\<open>v.Type()\<close>: a method call, which panics on the nil interface value.\<close>

fun Type :: "val \<Rightarrow> ref_type option" where
  "Type NilValue = None"
| "Type (Err _) = Some ErrType"
| "Type (Unknown _) = Some UnknownType"
| "Type (String _) = Some StringType"
| "Type (Int_val _) = Some IntType"
| "Type (Bool _) = Some BoolType"
| "Type (DynamicList _) = Some ListType"
| "Type (DynamicMap _) = Some MapType"
| "Type (Object n _) = Some (ObjectType n)"

text \<open>
  Modelled from the spec: \<open>types.IsError\<close> and \<open>types.IsUnknown\<close> are missing from the sources.
  The spec asks of the value capability model "whether a given value denotes an error or the
  unknown placeholder". The interpreter applies both to a value (\<open>evalCall\<close>, \<open>evalCreateType\<close>)
  and to a value's type (\<open>evalCreateList\<close>, \<open>evalCreateMap\<close>), so each has the two forms;
  a function of Go that accepts both takes an \<open>interface{}\<close> and inspects its dynamic type,
  and nil, which has none, is neither an error nor an unknown.
\<close>

definition IsErrorType :: "ref_type \<Rightarrow> bool" where
  "IsErrorType t = (t = ErrType)"

definition IsUnknownType :: "ref_type \<Rightarrow> bool" where
  "IsUnknownType t = (t = UnknownType)"

definition IsError :: "val \<Rightarrow> bool" where
  "IsError v = (case Type v of None \<Rightarrow> False | Some t \<Rightarrow> IsErrorType t)"

definition IsUnknown :: "val \<Rightarrow> bool" where
  "IsUnknown v = (case Type v of None \<Rightarrow> False | Some t \<Rightarrow> IsUnknownType t)"

text \<open>
  Modelled from the spec: \<open>HasTrait(traits.IndexerType)\<close> is missing from the sources. The
  aggregates support field and key access; errors, unknowns and scalars do not (the spec's
  Select row: an operand lacking the indexing capability is an unknown or an invalid operand).
\<close>

fun HasTrait_IndexerType :: "ref_type \<Rightarrow> bool" where
  "HasTrait_IndexerType ListType = True"
| "HasTrait_IndexerType MapType = True"
| "HasTrait_IndexerType (ObjectType _) = True"
| "HasTrait_IndexerType _ = False"

section \<open>Eval State\<close>

text \<open>
  Modelled from the spec: the type \<open>MutableEvalState\<close> is missing from the sources. Section 4.1:
  \<open>set(id, value)\<close> stores a result unconditionally, \<open>get(id)\<close> returns the stored result or
  none, \<open>only_value()\<close> returns the single stored value if and only if exactly one id has ever
  been set. The state is the list of the ids set so far, each with its latest value.
\<close>

type_synonym EvalState = "(int \<times> val) list"

definition Value :: "EvalState \<Rightarrow> int \<Rightarrow> val option" where
  "Value s k = map_of s k"

text \<open>Storing under a key of a Go map, as an association list: an old entry is replaced.\<close>

fun put :: "('k \<times> 'v) list \<Rightarrow> 'k \<Rightarrow> 'v \<Rightarrow> ('k \<times> 'v) list" where
  "put [] k v = [(k, v)]"
| "put ((k', v') # s) k v = (if k' = k then (k, v) # s else (k', v') # put s k v)"

definition SetValue :: "EvalState \<Rightarrow> int \<Rightarrow> val \<Rightarrow> EvalState" where
  "SetValue s k v = put s k v"

definition OnlyValue :: "EvalState \<Rightarrow> val option" where
  "OnlyValue s = (case remdups (map fst s) of [k] \<Rightarrow> map_of s k | _ \<Rightarrow> None)"

section \<open>Instructions and programs\<close>

datatype instruction =
    ConstExpr int val
  | IdentExpr int string
  | SelectExpr int int string
  | CallExpr int string "int list" bool
  | CreateListExpr int "int list"
  | CreateMapExpr int "(int \<times> int) list"
  | CreateObjectExpr int string "(string \<times> int) list"
  | MovInst int int
  | JumpInst int "EvalState \<Rightarrow> bool" int
  | PushScopeInst int "(string \<times> int) list"
  | PopScopeInst int

text \<open>
  The fields are, in the order of the constructors' arguments: \<open>Id\<close> first everywhere;
  \<open>Value\<close> of a constant; \<open>Name\<close> of an identifier; \<open>Operand\<close> and \<open>Field\<close> of a select;
  \<open>Function\<close>, \<open>Args\<close> and \<open>Strict\<close> of a call; \<open>Elements\<close>; \<open>KeyValues\<close>; \<open>Name\<close> and
  \<open>FieldValues\<close>; \<open>ToExprId\<close>; \<open>OnCondition\<close> and \<open>Count\<close>; \<open>Declarations\<close>.
  \<open>KeyValues\<close>, \<open>FieldValues\<close> and \<open>Declarations\<close> are Go maps: the list holds the entries
  of the map (distinct keys). The order of the list means nothing to the code, which meets
  the entries in the order in which a \<open>range\<close> loop visits the map; that order is a choice
  of the Go runtime and not a part of the instruction.
\<close>

fun GetId :: "instruction \<Rightarrow> int" where
  "GetId (ConstExpr i _) = i"
| "GetId (IdentExpr i _) = i"
| "GetId (SelectExpr i _ _) = i"
| "GetId (CallExpr i _ _ _) = i"
| "GetId (CreateListExpr i _) = i"
| "GetId (CreateMapExpr i _) = i"
| "GetId (CreateObjectExpr i _ _) = i"
| "GetId (MovInst i _) = i"
| "GetId (JumpInst i _ _) = i"
| "GetId (PushScopeInst i _) = i"
| "GetId (PopScopeInst i) = i"

type_synonym Metadata = "(int \<times> int) list"

record Program =
  instructions :: "instruction list"
  Metadata :: Metadata

text \<open>
  Modelled from the spec: the \<open>Program\<close> interface and its stepper are missing from the
  sources. \<open>get_instruction(id)\<close> is the random-access lookup of an instruction by its
  identifier; the result is nil (here \<open>None\<close>) for an id that no instruction carries.
\<close>

definition GetInstruction :: "Program \<Rightarrow> int \<Rightarrow> instruction option" where
  "GetInstruction p k = find (\<lambda>inst. GetId inst = k) (instructions p)"

section \<open>Activations\<close>

text \<open>
  A binding of an activation is a value or a function to call (\<open>func() interface{}\<close>). The
  only functions the interpreter itself binds are the closures of \<open>PushScopeInst\<close>, whose body
  \<open>return i.value(declId)\<close> reads the variable \<open>declId\<close> they captured: the closure is
  the address of that variable.
\<close>

datatype binding = Bound val | Lazy nat

text \<open>
  Modelled from the spec: the type \<open>Activation\<close> is missing from the sources. Section 4.3:
  \<open>resolve_name\<close> searches the local frame's bindings, then the parent chain, evaluating a
  lazy binding when it is looked up; \<open>resolve_reference\<close> looks up a value recorded for an
  expression id; \<open>parent()\<close> of a child frame is its creator, and fails on a root frame.
\<close>

datatype Activation =
    MapActivation "(string \<times> binding) list" "(int \<times> val) list"
  | HierarchicalActivation Activation Activation

definition NewActivation :: "(string \<times> binding) list \<Rightarrow> Activation" where
  "NewActivation bindings = MapActivation bindings []"

definition NewHierarchicalActivation :: "Activation \<Rightarrow> Activation \<Rightarrow> Activation" where
  "NewHierarchicalActivation parent child = HierarchicalActivation parent child"

fun Parent :: "Activation \<Rightarrow> fault + Activation" where
  "Parent (HierarchicalActivation parent child) = Inr parent"
| "Parent (MapActivation _ _) = Inl NoParent"

fun ResolveReference :: "Activation \<Rightarrow> int \<Rightarrow> val option" where
  "ResolveReference (MapActivation _ refs) k = map_of refs k"
| "ResolveReference (HierarchicalActivation parent child) k =
     (case ResolveReference child k of
        Some v \<Rightarrow> Some v
      | None \<Rightarrow> ResolveReference parent k)"

section \<open>The interpreter\<close>

record CallContext =
  call :: instruction
  activation :: Activation
  args :: "val list"
  metadata :: Metadata

record TypeProvider =
  FindIdent :: "string \<Rightarrow> val option"
  FindType :: "string \<Rightarrow> bool"
  NewValue :: "string \<Rightarrow> (string \<times> val) list \<Rightarrow> val"

text \<open>
  \<open>dispatcher\<close> is \<open>Dispatch\<close>, \<open>packager\<close> is \<open>ResolveCandidateNames\<close>. \<open>FindType\<close> keeps
  only the "found" flag, the one result of it that the interpreter reads.
\<close>

record exprInterpreter =
  dispatcher :: "CallContext \<Rightarrow> val"
  packager :: "string \<Rightarrow> string list"
  typeProvider :: TypeProvider

text \<open>
  What an evaluation mutates: the Eval State \<open>i.state\<close>; the variables \<open>declId\<close> that the
  closures of the scopes captured, by address (\<open>fresh\<close> is the next free address); and the
  calls made to the dispatcher so far, oldest first.

  The machine also carries the choices that the Go runtime makes for the evaluation. Go does
  not specify the order in which a \<open>range\<close> loop visits the entries of a map, and the order
  may differ from one loop to the next. \<open>ranges\<close> counts the \<open>range\<close> loops over a map run so
  far; the loop number \<open>n\<close> visits the entries by increasing rank of their keys, the rank
  being \<open>rank_ids n\<close> for a map keyed by expression ids and \<open>rank_names n\<close> for a map keyed
  by names (entries of equal rank in the order of the list that holds the map). Every order
  of a map is the order of some ranking.
\<close>

record machine =
  state :: EvalState
  vars :: "nat \<Rightarrow> int"
  fresh :: nat
  dispatched :: "CallContext list"
  ranges :: nat
  rank_ids :: "nat \<Rightarrow> int \<Rightarrow> nat"
  rank_names :: "nat \<Rightarrow> string \<Rightarrow> nat"

definition "value" :: "machine \<Rightarrow> int \<Rightarrow> val" where
  "value m k = (case Value (state m) k of Some object \<Rightarrow> object | None \<Rightarrow> Unknown [k])"

definition setValue :: "machine \<Rightarrow> int \<Rightarrow> val \<Rightarrow> machine" where
  "setValue m k v = m\<lparr>state := SetValue (state m) k v\<rparr>"

text \<open>
  The order in which the next \<open>range\<close> loop visits the entries of a map, and the machine
  after the loop.
\<close>

definition range_ids :: "machine \<Rightarrow> (int \<times> 'v) list \<Rightarrow> (int \<times> 'v) list" where
  "range_ids m entries = sort_key (\<lambda>entry. rank_ids m (ranges m) (fst entry)) entries"

definition range_names :: "machine \<Rightarrow> (string \<times> 'v) list \<Rightarrow> (string \<times> 'v) list" where
  "range_names m entries = sort_key (\<lambda>entry. rank_names m (ranges m) (fst entry)) entries"

definition ranged :: "machine \<Rightarrow> machine" where
  "ranged m = m\<lparr>ranges := Suc (ranges m)\<rparr>"

fun ResolveName :: "machine \<Rightarrow> Activation \<Rightarrow> string \<Rightarrow> val option" where
  "ResolveName m (MapActivation bindings _) name =
     (case map_of bindings name of
        None \<Rightarrow> None
      | Some (Bound v) \<Rightarrow> Some v
      | Some (Lazy a) \<Rightarrow> Some (value m (vars m a)))"
| "ResolveName m (HierarchicalActivation parent child) name =
     (case ResolveName m child name of
        Some v \<Rightarrow> Some v
      | None \<Rightarrow> ResolveName m parent name)"

subsection \<open>Identifiers\<close>

definition evalIdent :: "exprInterpreter \<Rightarrow> int \<Rightarrow> string \<Rightarrow> Activation \<Rightarrow> machine \<Rightarrow> machine" where
  "evalIdent I exprId name currActivation m =
     (case ResolveName m currActivation name of
        Some result \<Rightarrow> setValue m exprId result
      | None \<Rightarrow>
          (case FindIdent (typeProvider I) name of
             Some idVal \<Rightarrow> setValue m exprId idVal
           | None \<Rightarrow> setValue m exprId (Unknown [exprId])))"

subsection \<open>Calls\<close>

text \<open>
  The loop of \<open>evalCall\<close> over \<open>callExpr.Args\<close>: \<open>argVals\<close> holds the values read so far. The
  result is \<open>Inl v\<close> when the loop returned early, having stored \<open>v\<close>, and \<open>Inr argVals\<close> when
  it ran to its end.
\<close>

fun evalCall_args :: "machine \<Rightarrow> bool \<Rightarrow> int list \<Rightarrow> val list \<Rightarrow> val + val list" where
  "evalCall_args m Strict [] argVals = Inr argVals"
| "evalCall_args m Strict (argId # rest) argVals =
     (let v = value m argId in
      if Strict \<and> (IsError v \<or> IsUnknown v) then Inl v
      else evalCall_args m Strict rest (argVals @ [v]))"

definition evalCall ::
  "exprInterpreter \<Rightarrow> Program \<Rightarrow> int \<Rightarrow> string \<Rightarrow> int list \<Rightarrow> bool \<Rightarrow> Activation \<Rightarrow> machine \<Rightarrow> machine"
where
  "evalCall I program exprId Function Args Strict currActivation m =
     (case evalCall_args m Strict Args [] of
        Inl v \<Rightarrow> setValue m exprId v
      | Inr argVals \<Rightarrow>
          (let ctx = \<lparr>call = CallExpr exprId Function Args Strict, activation = currActivation,
                      args = argVals, metadata = Metadata program\<rparr>;
               result = dispatcher I ctx
           in setValue (m\<lparr>dispatched := dispatched m @ [ctx]\<rparr>) exprId result))"

subsection \<open>Selects and the resolution of unknowns\<close>

text \<open>
  The first loop of \<open>resolveUnknown\<close>, over the ids of the unknown operand, on the pair
  \<open>(validIdent, identifier)\<close>. The \<open>break\<close> of the default case leaves the \<open>switch\<close>, not
  the loop, which goes on to the next id. \<open>argVal.Type()\<close> panics on nil;
  \<open>argVal.(types.String)\<close> yields the characters of a string.
\<close>

fun resolveUnknown_name ::
  "Program \<Rightarrow> machine \<Rightarrow> int list \<Rightarrow> bool \<times> string \<Rightarrow> fault + bool \<times> string"
where
  "resolveUnknown_name program m [] (validIdent, identifier) = Inr (validIdent, identifier)"
| "resolveUnknown_name program m (arg # rest) (validIdent, identifier) =
     (case GetInstruction program arg of
        Some (IdentExpr _ name) \<Rightarrow>
          resolveUnknown_name program m rest (validIdent, name @ ''.'' @ identifier)
      | Some (SelectExpr _ _ field) \<Rightarrow>
          resolveUnknown_name program m rest (validIdent, field @ ''.'' @ identifier)
      | _ \<Rightarrow>
          (let argVal = value m arg in
           case Type argVal of
             None \<Rightarrow> Inl NilDereference
           | Some t \<Rightarrow>
               if t = StringType then
                 (case argVal of
                    String str \<Rightarrow>
                      resolveUnknown_name program m rest (validIdent, str @ ''.'' @ identifier)
                  | _ \<Rightarrow> Inl TypeAssertion)
               else resolveUnknown_name program m rest (False, identifier)))"

text \<open>The second loop, over the candidate names: the first name found, if any.\<close>

fun resolveUnknown_candidates ::
  "exprInterpreter \<Rightarrow> machine \<Rightarrow> Activation \<Rightarrow> string list \<Rightarrow> val option"
where
  "resolveUnknown_candidates I m currActivation [] = None"
| "resolveUnknown_candidates I m currActivation (name # rest) =
     (case ResolveName m currActivation name of
        Some object \<Rightarrow> Some object
      | None \<Rightarrow>
          (case FindIdent (typeProvider I) name of
             Some identVal \<Rightarrow> Some identVal
           | None \<Rightarrow> resolveUnknown_candidates I m currActivation rest))"

definition resolveUnknown ::
  "exprInterpreter \<Rightarrow> Program \<Rightarrow> int list \<Rightarrow> int \<Rightarrow> string \<Rightarrow> Activation \<Rightarrow> machine
   \<Rightarrow> fault + machine"
where
  "resolveUnknown I program unknown exprId Field' currActivation m =
     (case ResolveReference currActivation exprId of
        Some object \<Rightarrow> Inr (setValue m exprId object)
      | None \<Rightarrow>
          (case resolveUnknown_name program m unknown (True, Field') of
             Inl f \<Rightarrow> Inl f
           | Inr (validIdent, identifier) \<Rightarrow>
               if \<not> validIdent then Inr m
               else
                 (case resolveUnknown_candidates I m currActivation (packager I identifier) of
                    Some object \<Rightarrow> Inr (setValue m exprId object)
                  | None \<Rightarrow> Inr (setValue m exprId (Unknown ([exprId] @ unknown))))))"

text \<open>
  \<open>Get\<close> is the operand's \<open>traits.Indexer.Get\<close>, which is not among the sources: a parameter.
  \<open>operand.Type()\<close> panics on nil; the type assertion \<open>operand.(types.Unknown)\<close> yields the
  ids of an unknown.
\<close>

definition evalSelect ::
  "(val \<Rightarrow> val \<Rightarrow> val) \<Rightarrow> exprInterpreter \<Rightarrow> Program \<Rightarrow> int \<Rightarrow> int \<Rightarrow> string \<Rightarrow> Activation
   \<Rightarrow> machine \<Rightarrow> fault + machine"
where
  "evalSelect Get I program exprId Operand Field' currActivation m =
     (let operand = value m Operand in
      case Type operand of
        None \<Rightarrow> Inl NilDereference
      | Some t \<Rightarrow>
          if \<not> HasTrait_IndexerType t then
            (if IsUnknown operand then
               (case operand of
                  Unknown unknown \<Rightarrow>
                    resolveUnknown I program unknown exprId Field' currActivation m
                | _ \<Rightarrow> Inl TypeAssertion)
             else Inr (setValue m Operand (Err ''invalid operand in select'')))
          else Inr (setValue m exprId (Get operand (String Field'))))"

subsection \<open>Aggregates\<close>

text \<open>
  The loops of the three constructors: \<open>Inl v\<close> when the loop returned early, having stored
  \<open>v\<close>, and \<open>Inr\<close> of what it collected when it ran to its end. In the list and map
  constructors the test is on \<open>elem.Type()\<close>, which panics on nil. The loops over
  \<open>KeyValues\<close> and \<open>FieldValues\<close> take the entries in the order of the visit.
\<close>

fun evalCreateList_elements :: "machine \<Rightarrow> int list \<Rightarrow> val list \<Rightarrow> fault + (val + val list)" where
  "evalCreateList_elements m [] elements = Inr (Inr elements)"
| "evalCreateList_elements m (elementId # rest) elements =
     (let elem = value m elementId in
      case Type elem of
        None \<Rightarrow> Inl NilDereference
      | Some t \<Rightarrow>
          if IsErrorType t \<or> IsUnknownType t then Inr (Inl elem)
          else evalCreateList_elements m rest (elements @ [value m elementId]))"

definition evalCreateList :: "int \<Rightarrow> int list \<Rightarrow> machine \<Rightarrow> fault + machine" where
  "evalCreateList exprId Elements m =
     (case evalCreateList_elements m Elements [] of
        Inl f \<Rightarrow> Inl f
      | Inr (Inl elem) \<Rightarrow> Inr (setValue m exprId elem)
      | Inr (Inr elements) \<Rightarrow> Inr (setValue m exprId (DynamicList elements)))"

fun evalCreateMap_entries ::
  "machine \<Rightarrow> (int \<times> int) list \<Rightarrow> (val \<times> val) list \<Rightarrow> fault + (val + (val \<times> val) list)"
where
  "evalCreateMap_entries m [] entries = Inr (Inr entries)"
| "evalCreateMap_entries m ((keyId, valueId) # rest) entries =
     (let key = value m keyId in
      case Type key of
        None \<Rightarrow> Inl NilDereference
      | Some kt \<Rightarrow>
          if IsErrorType kt \<or> IsUnknownType kt then Inr (Inl key)
          else
            (let val = value m valueId in
             case Type val of
               None \<Rightarrow> Inl NilDereference
             | Some vt \<Rightarrow>
                 if IsErrorType vt \<or> IsUnknownType vt then Inr (Inl val)
                 else evalCreateMap_entries m rest (put entries key val)))"

definition evalCreateMap :: "int \<Rightarrow> (int \<times> int) list \<Rightarrow> machine \<Rightarrow> fault + machine" where
  "evalCreateMap exprId KeyValues m =
     (case evalCreateMap_entries m (range_ids m KeyValues) [] of
        Inl f \<Rightarrow> Inl f
      | Inr (Inl v) \<Rightarrow> Inr (setValue (ranged m) exprId v)
      | Inr (Inr entries) \<Rightarrow> Inr (setValue (ranged m) exprId (DynamicMap entries)))"

fun evalCreateType_fields ::
  "machine \<Rightarrow> (string \<times> int) list \<Rightarrow> (string \<times> val) list \<Rightarrow> val + (string \<times> val) list"
where
  "evalCreateType_fields m [] fields' = Inr fields'"
| "evalCreateType_fields m ((field, valueId) # rest) fields' =
     (let val = value m valueId in
      if IsError val \<or> IsUnknown val then Inl val
      else evalCreateType_fields m rest (put fields' field val))"

fun newValue_typeName :: "exprInterpreter \<Rightarrow> string \<Rightarrow> string list \<Rightarrow> string" where
  "newValue_typeName I typeName [] = typeName"
| "newValue_typeName I typeName (qualifiedTypeName # rest) =
     (if FindType (typeProvider I) qualifiedTypeName then qualifiedTypeName
      else newValue_typeName I typeName rest)"

definition newValue :: "exprInterpreter \<Rightarrow> string \<Rightarrow> (string \<times> val) list \<Rightarrow> val" where
  "newValue I typeName fields' =
     NewValue (typeProvider I) (newValue_typeName I typeName (packager I typeName)) fields'"

definition evalCreateType ::
  "exprInterpreter \<Rightarrow> int \<Rightarrow> string \<Rightarrow> (string \<times> int) list \<Rightarrow> machine \<Rightarrow> machine"
where
  "evalCreateType I exprId Name FieldValues m =
     (case evalCreateType_fields m (range_names m FieldValues) [] of
        Inl v \<Rightarrow> setValue (ranged m) exprId v
      | Inr fields' \<Rightarrow> setValue (ranged m) exprId (newValue I Name fields'))"

definition evalMov :: "int \<Rightarrow> int \<Rightarrow> machine \<Rightarrow> machine" where
  "evalMov exprId ToExprId m = setValue m ToExprId (value m exprId)"

subsection \<open>Scopes\<close>

text \<open>
  The loop \<open>for key, declId := range scopeDecls\<close> of the \<open>PushScopeInst\<close> case. In the Go of
  this code base (the language before version 1.22) a \<open>range\<close> statement declares its
  variables once for the whole loop and assigns them at every iteration. The function literal
  \<open>func() interface{} { return i.value(declId) }\<close> captures the variable \<open>declId\<close>, not the
  value it holds at that iteration; \<open>key\<close> is read at once, as the index of the assignment.
  \<open>a\<close> is the address of \<open>declId\<close>.
\<close>

fun pushScope_declarations ::
  "nat \<Rightarrow> (string \<times> int) list \<Rightarrow> (nat \<Rightarrow> int) \<Rightarrow> (string \<times> binding) list
   \<Rightarrow> (nat \<Rightarrow> int) \<times> (string \<times> binding) list"
where
  "pushScope_declarations a [] vs childActivaton = (vs, childActivaton)"
| "pushScope_declarations a ((key, declId) # rest) vs childActivaton =
     pushScope_declarations a rest (vs(a := declId)) (put childActivaton key (Lazy a))"

definition pushScope :: "(string \<times> int) list \<Rightarrow> Activation \<Rightarrow> machine \<Rightarrow> Activation \<times> machine" where
  "pushScope scopeDecls currActivation m =
     (let a = fresh m;
          (vs, childActivaton) =
            pushScope_declarations a (range_names m scopeDecls) (vars m) []
      in (NewHierarchicalActivation currActivation (NewActivation childActivaton),
          (ranged m)\<lparr>vars := vs, fresh := Suc a\<rparr>))"

subsection \<open>The execution loop\<close>

text \<open>
  Modelled from the spec: the stepper of a \<open>Program\<close> is missing from the sources. It is a
  cursor into the instruction sequence. \<open>Next\<close> yields the instruction under the cursor and
  moves the cursor by one, or reports that there is no further instruction; \<open>JumpCount\<close>
  advances the cursor by \<open>count\<close> additional instructions beyond that single step, and
  refuses (\<open>None\<close>) a count that would move it past the end or before the start.
\<close>

definition Next :: "Program \<Rightarrow> nat \<Rightarrow> (instruction \<times> nat) option" where
  "Next program cursor =
     (if cursor < length (instructions program)
      then Some (instructions program ! cursor, Suc cursor) else None)"

definition JumpCount :: "Program \<Rightarrow> nat \<Rightarrow> int \<Rightarrow> nat option" where
  "JumpCount program cursor count' =
     (let candidate = int cursor + count' in
      if 0 \<le> candidate \<and> candidate \<le> int (length (instructions program))
      then Some (nat candidate) else None)"

text \<open>
  The body of the loop of \<open>Eval\<close>: the \<open>switch\<close> on the instruction, on the cursor (already
  moved by \<open>Next\<close>), the current activation and the machine. The switch has no case for a
  \<open>ConstExpr\<close> and no default: such a step changes nothing.
\<close>

fun exec ::
  "(val \<Rightarrow> val \<Rightarrow> val) \<Rightarrow> exprInterpreter \<Rightarrow> Program \<Rightarrow> instruction \<Rightarrow> nat \<times> Activation \<times> machine
   \<Rightarrow> fault + nat \<times> Activation \<times> machine"
where
  "exec Get I program (IdentExpr exprId name) (cursor, currActivation, m) =
     Inr (cursor, currActivation, evalIdent I exprId name currActivation m)"
| "exec Get I program (SelectExpr exprId Operand Field') (cursor, currActivation, m) =
     (case evalSelect Get I program exprId Operand Field' currActivation m of
        Inl f \<Rightarrow> Inl f
      | Inr m' \<Rightarrow> Inr (cursor, currActivation, m'))"
| "exec Get I program (CallExpr exprId Function Args Strict) (cursor, currActivation, m) =
     Inr (cursor, currActivation, evalCall I program exprId Function Args Strict currActivation m)"
| "exec Get I program (CreateListExpr exprId Elements) (cursor, currActivation, m) =
     (case evalCreateList exprId Elements m of
        Inl f \<Rightarrow> Inl f
      | Inr m' \<Rightarrow> Inr (cursor, currActivation, m'))"
| "exec Get I program (CreateMapExpr exprId KeyValues) (cursor, currActivation, m) =
     (case evalCreateMap exprId KeyValues m of
        Inl f \<Rightarrow> Inl f
      | Inr m' \<Rightarrow> Inr (cursor, currActivation, m'))"
| "exec Get I program (CreateObjectExpr exprId Name FieldValues) (cursor, currActivation, m) =
     Inr (cursor, currActivation, evalCreateType I exprId Name FieldValues m)"
| "exec Get I program (MovInst exprId ToExprId) (cursor, currActivation, m) =
     Inr (cursor, currActivation, evalMov exprId ToExprId m)"
| "exec Get I program (JumpInst exprId OnCondition Count) (cursor, currActivation, m) =
     (if OnCondition (state m) then
        (case JumpCount program cursor Count of
           None \<Rightarrow> Inl JumpedTooFar
         | Some cursor' \<Rightarrow> Inr (cursor', currActivation, m))
      else Inr (cursor, currActivation, m))"
| "exec Get I program (PushScopeInst exprId Declarations) (cursor, currActivation, m) =
     (let (childActivation, m') = pushScope Declarations currActivation m
      in Inr (cursor, childActivation, m'))"
| "exec Get I program (PopScopeInst exprId) (cursor, currActivation, m) =
     (case Parent currActivation of
        Inl f \<Rightarrow> Inl f
      | Inr parent \<Rightarrow> Inr (cursor, parent, m))"
| "exec Get I program (ConstExpr exprId v) (cursor, currActivation, m) =
     Inr (cursor, currActivation, m)"

text \<open>
  The loop itself. A jump may go backwards, so the loop may run forever: it runs on fuel,
  one unit for each call of \<open>stepper.Next()\<close>, and \<open>None\<close> is a loop that was still running
  when the fuel ran out. The result is the final \<open>resultId\<close> and machine, or the panic.
\<close>

fun loop ::
  "nat \<Rightarrow> (val \<Rightarrow> val \<Rightarrow> val) \<Rightarrow> exprInterpreter \<Rightarrow> Program \<Rightarrow> int \<Rightarrow> nat \<times> Activation \<times> machine
   \<Rightarrow> (fault + int \<times> machine) option"
where
  "loop 0 Get I program resultId (cursor, currActivation, m) = None"
| "loop (Suc fuel) Get I program resultId (cursor, currActivation, m) =
     (case Next program cursor of
        None \<Rightarrow> Some (Inr (resultId, m))
      | Some (step, cursor') \<Rightarrow>
          (case exec Get I program step (cursor', currActivation, m) of
             Inl f \<Rightarrow> Some (Inl f)
           | Inr c \<Rightarrow> loop fuel Get I program (GetId step) c))"

text \<open>
  \<open>Eval\<close>: \<open>resultId\<close> starts as the zero of \<open>int64\<close>; \<open>m\<close> is the machine of the
  interpretable when \<open>Eval\<close> is called (its state is \<open>i.state\<close>, as \<open>NewInterpretable\<close> and
  \<open>program.Init\<close> left it). The result is the value returned and the machine, whose \<open>state\<close> is
  the Eval State returned. \<open>OnlyValue\<close> that finds nothing leaves the result nil.
\<close>

definition Eval ::
  "nat \<Rightarrow> (val \<Rightarrow> val \<Rightarrow> val) \<Rightarrow> exprInterpreter \<Rightarrow> Program \<Rightarrow> Activation \<Rightarrow> machine
   \<Rightarrow> (fault + val \<times> machine) option"
where
  "Eval fuel Get I program activation' m =
     (case loop fuel Get I program 0 (0, activation', m) of
        None \<Rightarrow> None
      | Some (Inl f) \<Rightarrow> Some (Inl f)
      | Some (Inr (resultId, m')) \<Rightarrow>
          (let result = value m' resultId;
               result = (if result = NilValue
                         then (case OnlyValue (state m') of Some v \<Rightarrow> v | None \<Rightarrow> NilValue)
                         else result)
           in Some (Inr (result, m'))))"

section \<open>Example collaborators and inputs\<close>

text \<open>
  A dispatcher that knows the addition of two integers and reports anything else as an
  error value; a packager with the one package \<open>pkg\<close>; a type provider that knows the
  package-level identifier \<open>x\<close>; an indexer for maps; a machine whose runtime gives every
  key the same rank, so that it visits the entries of a map in the order of the list that
  holds them.
\<close>

definition ex_dispatch :: "CallContext \<Rightarrow> val" where
  "ex_dispatch ctx =
     (case args ctx of
        [Int_val a, Int_val b] \<Rightarrow> Int_val (a + b)
      | _ \<Rightarrow> Err ''no matching overload'')"

definition ex_interpreter :: exprInterpreter where
  "ex_interpreter =
     \<lparr>dispatcher = ex_dispatch,
      packager = (\<lambda>name. [''pkg.'' @ name, name]),
      typeProvider =
        \<lparr>FindIdent = (\<lambda>name. if name = ''x'' then Some (Int_val 7) else None),
         FindType = (\<lambda>name. False),
         NewValue = (\<lambda>name fs. Object name fs)\<rparr>\<rparr>"

definition ex_Get :: "val \<Rightarrow> val \<Rightarrow> val" where
  "ex_Get operand k =
     (case operand of
        DynamicMap entries \<Rightarrow>
          (case map_of entries k of Some v \<Rightarrow> v | None \<Rightarrow> Err ''no such key'')
      | _ \<Rightarrow> Err ''no such key'')"

definition ex_machine :: "EvalState \<Rightarrow> machine" where
  "ex_machine s =
     \<lparr>state = s, vars = (\<lambda>a. 0), fresh = 0, dispatched = [],
      ranges = 0, rank_ids = (\<lambda>n k. 0), rank_names = (\<lambda>n name. 0)\<rparr>"

definition ex_program :: "instruction list \<Rightarrow> Program" where
  "ex_program insts = \<lparr>instructions = insts, Metadata = []\<rparr>"

definition ex_root :: Activation where
  "ex_root = MapActivation [(''x'', Bound (Int_val 3))] []"

definition ex_child :: Activation where
  "ex_child = HierarchicalActivation ex_root (MapActivation [(''k'', Bound (Bool True))] [])"

definition ex_state :: EvalState where
  "ex_state = [(1, Int_val 3), (2, Err ''boom''), (3, Unknown [3]), (4, String ''k'')]"

definition ex_always :: "EvalState \<Rightarrow> bool" where
  "ex_always s = True"

text \<open>
  A machine whose runtime visits the key 3 of a map of ids before every other key; an
  activation that binds the dotted name \<open>y.z\<close> and holds a resolved reference for id 7; an
  interpreter whose type provider knows \<open>pkg.y.z\<close>.
\<close>

definition ex_rank :: "nat \<Rightarrow> int \<Rightarrow> nat" where
  "ex_rank n k = (if k = 3 then 0 else 1)"

definition ex_machine_ranked :: "EvalState \<Rightarrow> machine" where
  "ex_machine_ranked s = (ex_machine s)\<lparr>rank_ids := ex_rank\<rparr>"

definition ex_references :: Activation where
  "ex_references = MapActivation [(''y.z'', Bound (Int_val 5))] [(7, Int_val 9)]"

definition ex_interpreter_pkg :: exprInterpreter where
  "ex_interpreter_pkg =
     ex_interpreter\<lparr>typeProvider :=
       \<lparr>FindIdent = (\<lambda>name. if name = ''pkg.y.z'' then Some (Int_val 8) else None),
        FindType = (\<lambda>name. False),
        NewValue = (\<lambda>name fs. Object name fs)\<rparr>\<rparr>"

section \<open>Predicates of the statements\<close>

text \<open>
  The value read at an id is a concrete value: not nil, not an error and not an unknown.
\<close>

definition concrete :: "machine \<Rightarrow> int \<Rightarrow> bool" where
  "concrete m k =
     (value m k \<noteq> NilValue \<and> \<not> IsError (value m k) \<and> \<not> IsUnknown (value m k))"

text \<open>
  What the id \<open>arg\<close> of an unknown contributes to a dotted name, in the words of the spec
  (section 4.5, step 2): an \<open>Ident\<close> contributes its name, a \<open>Select\<close> its field name, any
  other instruction its evaluated value if that value is a string; \<open>None\<close> is a contributor
  that invalidates the reconstruction.
\<close>

definition segment :: "Program \<Rightarrow> machine \<Rightarrow> int \<Rightarrow> string option" where
  "segment program m arg =
     (case GetInstruction program arg of
        Some (IdentExpr _ name) \<Rightarrow> Some name
      | Some (SelectExpr _ _ field) \<Rightarrow> Some field
      | _ \<Rightarrow> (case value m arg of String str \<Rightarrow> Some str | _ \<Rightarrow> None))"

text \<open>
  The dotted name that the ids of an unknown give for the field \<open>ident\<close>: the segment of
  each id is put, with a dot, before what the ids before it gave.
\<close>

fun qualified_name :: "Program \<Rightarrow> machine \<Rightarrow> int list \<Rightarrow> string \<Rightarrow> string" where
  "qualified_name program m [] ident = ident"
| "qualified_name program m (arg # rest) ident =
     qualified_name program m rest
       (case segment program m arg of Some seg \<Rightarrow> seg @ ''.'' @ ident | None \<Rightarrow> ident)"

text \<open>
  The step \<open>r\<close> of the loop returned, with the cursor and the activation given, and stored
  \<open>v\<close> under \<open>exprId\<close> in the Eval State of \<open>m\<close>.
\<close>

abbreviation stores ::
  "(fault + nat \<times> Activation \<times> machine) \<Rightarrow> nat \<Rightarrow> Activation \<Rightarrow> machine \<Rightarrow> int \<Rightarrow> val \<Rightarrow> bool"
where
  "stores r cursor currActivation m exprId v \<equiv>
     (\<exists>m'. r = Inr (cursor, currActivation, m') \<and>
           state m' = SetValue (state m) exprId v \<and>
           Value (state m') exprId = Some v)"

section \<open>Reading and writing the Eval State\<close>

lemmas kinds = IsError_def IsUnknown_def IsErrorType_def IsUnknownType_def

lemma map_of_put: "map_of (put s k v) = (map_of s)(k \<mapsto> v)"
  by (induction s) auto

lemma value_setValue: "value (setValue m k v) j = (if j = k then v else value m j)"
  by (simp add: value_def setValue_def Value_def SetValue_def map_of_put)

lemma Value_setValue: "Value (state (setValue m k v)) j = (if j = k then Some v else Value (state m) j)"
  by (simp add: setValue_def Value_def SetValue_def map_of_put)

lemma dispatched_setValue: "dispatched (setValue m k v) = dispatched m"
  by (simp add: setValue_def)

lemma state_ranged: "state (ranged m) = state m"
  by (simp add: ranged_def)

lemma state_setValue: "state (setValue m k v) = SetValue (state m) k v"
  by (simp add: setValue_def)

lemma Value_SetValue: "Value (SetValue s k v) j = (if j = k then Some v else Value s j)"
  by (simp add: Value_def SetValue_def map_of_put)

lemma value_unset: "k \<notin> fst ` set (state m) \<Longrightarrow> value m k = Unknown [k]"
proof -
  assume "k \<notin> fst ` set (state m)"
  then have "map_of (state m) k = None"
    by (simp add: map_of_eq_None_iff)
  then show ?thesis
    by (simp add: value_def Value_def)
qed

lemma value_ranged: "value (ranged m) k = value m k"
  by (simp add: value_def state_ranged)

lemma stores_setValue:
  "r = Inr (cursor, currActivation, setValue m' exprId v) \<Longrightarrow> state m' = state m \<Longrightarrow>
   stores r cursor currActivation m exprId v"
  by (simp add: state_setValue Value_SetValue)

section \<open>The order of a visit\<close>

lemma set_range_ids: "set (range_ids m entries) = set entries"
  by (simp add: range_ids_def)

lemma set_range_names: "set (range_names m entries) = set entries"
  by (simp add: range_names_def)

lemma filter_eq_distinct: "distinct xs \<Longrightarrow> k \<in> set xs \<Longrightarrow> filter (\<lambda>x. k = x) xs = [k]"
proof (induction xs)
  case Nil
  then show ?case by simp
next
  case (Cons a xs)
  show ?case
  proof (cases "k = a")
    case True
    with Cons.prems have "k \<notin> set xs" by simp
    then have "filter (\<lambda>x. k = x) xs = []" by (auto simp add: filter_empty_conv)
    with True show ?thesis by simp
  next
    case False
    with Cons show ?thesis by simp
  qed
qed

text \<open>Every order of the entries of a map is the order of some ranking of its keys.\<close>

lemma sort_key_any_order:
  assumes "distinct (map fst ys)"
  shows "mset xs = mset ys \<Longrightarrow> \<exists>r :: 'k \<Rightarrow> nat. sort_key (\<lambda>entry. r (fst entry)) xs = ys"
proof -
  assume p: "mset xs = mset ys"
  define r :: "'k \<Rightarrow> nat" where "r k = length (takeWhile (\<lambda>e. fst e \<noteq> k) ys)" for k
  have idx: "\<And>i. i < length ys \<Longrightarrow> r (fst (ys ! i)) = i"
  proof -
    fix i assume i: "i < length ys"
    have "takeWhile (\<lambda>e. fst e \<noteq> fst (ys ! i)) ys = take i ys"
    proof (rule takeWhile_eq_take_P_nth)
      fix j assume "j < i" "j < length ys"
      with i assms show "fst (ys ! j) \<noteq> fst (ys ! i)"
        by (metis distinct_conv_nth length_map nat_neq_iff nth_map)
    next
      show "i < length ys \<Longrightarrow> \<not> fst (ys ! i) \<noteq> fst (ys ! i)" by simp
    qed
    with i show "r (fst (ys ! i)) = i" by (simp add: r_def)
  qed
  have m: "map (\<lambda>entry. r (fst entry)) ys = [0..<length ys]"
    by (rule nth_equalityI) (simp_all add: idx)
  have s: "sorted (map (\<lambda>entry. r (fst entry)) ys)"
    by (simp add: m)
  have inj: "\<And>a b. a \<in> set ys \<Longrightarrow> b \<in> set ys \<Longrightarrow> r (fst a) = r (fst b) \<Longrightarrow> a = b"
    by (metis idx in_set_conv_nth)
  have dy: "distinct ys"
    using assms by (rule distinct_map [THEN iffD1, THEN conjunct1])
  have dx: "distinct xs"
    using dy p by (metis distinct_count_atmost_1 set_mset_mset)
  have sx: "set xs = set ys"
    using p by (rule mset_eq_setD)
  have "sort_key (\<lambda>entry. r (fst entry)) xs = ys"
  proof (rule properties_for_sort_key)
    show "mset ys = mset xs" using p by simp
    show "sorted (map (\<lambda>entry. r (fst entry)) ys)" by (rule s)
    fix k assume k: "k \<in> set ys"
    have a: "filter (\<lambda>x. r (fst k) = r (fst x)) ys = [k]"
    proof -
      have "filter (\<lambda>x. r (fst k) = r (fst x)) ys = filter (\<lambda>x. k = x) ys"
        using k inj by (intro filter_cong refl) blast
      also have "\<dots> = [k]"
        using dy k by (rule filter_eq_distinct)
      finally show ?thesis .
    qed
    have b: "filter (\<lambda>x. r (fst k) = r (fst x)) xs = [k]"
    proof -
      have "filter (\<lambda>x. r (fst k) = r (fst x)) xs = filter (\<lambda>x. k = x) xs"
        using k inj sx by (intro filter_cong refl) blast
      also have "\<dots> = [k]"
        using dx k sx by (intro filter_eq_distinct) simp_all
      finally show ?thesis .
    qed
    show "filter (\<lambda>x. r (fst k) = r (fst x)) ys = filter (\<lambda>x. r (fst k) = r (fst x)) xs"
      by (simp add: a b)
  qed
  then show ?thesis by blast
qed


lemma range_ids_any_order:
  "distinct (map fst visit) \<Longrightarrow> mset entries = mset visit \<Longrightarrow>
   \<exists>r. range_ids (m\<lparr>rank_ids := (\<lambda>n. r)\<rparr>) entries = visit"
  using sort_key_any_order [of visit entries] by (simp add: range_ids_def)

lemma range_names_any_order:
  "distinct (map fst visit) \<Longrightarrow> mset entries = mset visit \<Longrightarrow>
   \<exists>r. range_names (m\<lparr>rank_names := (\<lambda>n. r)\<rparr>) entries = visit"
  using sort_key_any_order [of visit entries] by (simp add: range_names_def)

lemma ex_range_ids: "range_ids (ex_machine s) entries = sort_key (\<lambda>entry. 0::nat) entries"
  by (simp add: range_ids_def ex_machine_def)

lemma ex_range_names: "range_names (ex_machine s) entries = sort_key (\<lambda>entry. 0::nat) entries"
  by (simp add: range_names_def ex_machine_def)

section \<open>Calls\<close>

lemma evalCall_args_collect:
  "\<forall>x \<in> set Args. \<not> (Strict \<and> (IsError (value m x) \<or> IsUnknown (value m x))) \<Longrightarrow>
   evalCall_args m Strict Args argVals = Inr (argVals @ map (value m) Args)"
  by (induction Args arbitrary: argVals) (simp_all add: Let_def)

lemma evalCall_args_first:
  "\<forall>x \<in> set pre. \<not> IsError (value m x) \<and> \<not> IsUnknown (value m x) \<Longrightarrow>
   IsError (value m a) \<or> IsUnknown (value m a) \<Longrightarrow>
   evalCall_args m True (pre @ a # post) argVals = Inl (value m a)"
  by (induction pre arbitrary: argVals) (simp_all add: Let_def)

text \<open>
  C1. A strict call reads its arguments from left to right. If \<open>a\<close> is the leftmost argument
  whose value is an error or an unknown, that value is stored under the call's id, the
  dispatcher is not called (the record of its calls is unchanged) and the arguments \<open>post\<close>
  after \<open>a\<close> have no influence. If no argument is an error or an unknown, the dispatcher is
  called once, with the arguments' values in order, and what it returns is stored.
\<close>

theorem evalCall_strict:
  "((\<forall>x \<in> set pre. \<not> IsError (value m x) \<and> \<not> IsUnknown (value m x)) \<and>
    (IsError (value m a) \<or> IsUnknown (value m a)) \<longrightarrow>
      evalCall I program exprId Function (pre @ a # post) True currActivation m =
        setValue m exprId (value m a) \<and>
      dispatched (evalCall I program exprId Function (pre @ a # post) True currActivation m) =
        dispatched m) \<and>
   ((\<forall>x \<in> set Args. \<not> IsError (value m x) \<and> \<not> IsUnknown (value m x)) \<longrightarrow>
      evalCall I program exprId Function Args True currActivation m =
        (let ctx = \<lparr>call = CallExpr exprId Function Args True, activation = currActivation,
                    args = map (value m) Args, metadata = Metadata program\<rparr>
         in setValue (m\<lparr>dispatched := dispatched m @ [ctx]\<rparr>) exprId (dispatcher I ctx)))"
proof (intro conjI impI)
  assume h: "(\<forall>x \<in> set pre. \<not> IsError (value m x) \<and> \<not> IsUnknown (value m x)) \<and>
    (IsError (value m a) \<or> IsUnknown (value m a))"
  then have "evalCall_args m True (pre @ a # post) [] = Inl (value m a)"
    using evalCall_args_first [of pre m a post "[]"] by blast
  then show r: "evalCall I program exprId Function (pre @ a # post) True currActivation m =
        setValue m exprId (value m a)"
    by (simp add: evalCall_def)
  show "dispatched (evalCall I program exprId Function (pre @ a # post) True currActivation m) =
        dispatched m"
    by (simp add: r dispatched_setValue)
next
  assume "\<forall>x \<in> set Args. \<not> IsError (value m x) \<and> \<not> IsUnknown (value m x)"
  then have "evalCall_args m True Args [] = Inr (map (value m) Args)"
    using evalCall_args_collect [of Args True m "[]"] by simp
  then show "evalCall I program exprId Function Args True currActivation m =
        (let ctx = \<lparr>call = CallExpr exprId Function Args True, activation = currActivation,
                    args = map (value m) Args, metadata = Metadata program\<rparr>
         in setValue (m\<lparr>dispatched := dispatched m @ [ctx]\<rparr>) exprId (dispatcher I ctx))"
    by (simp add: evalCall_def)
qed

theorem evalCall_strict_witness:
  "evalCall ex_interpreter (ex_program []) 4 ''_+_'' [1, 2, 3] True ex_root
     (ex_machine [(1, Int_val 3), (2, Err ''boom''), (3, Unknown [3])]) =
   ex_machine [(1, Int_val 3), (2, Err ''boom''), (3, Unknown [3]), (4, Err ''boom'')] \<and>
   state (evalCall ex_interpreter (ex_program []) 2 ''_+_'' [1, 1] True ex_root
     (ex_machine [(1, Int_val 3)])) = [(1, Int_val 3), (2, Int_val 6)]"
proof -
  let ?m = "ex_machine [(1, Int_val 3), (2, Err ''boom''), (3, Unknown [3])]"
  let ?n = "ex_machine [(1, Int_val 3)]"
  have v: "value ?m 1 = Int_val 3" "value ?m 2 = Err ''boom''" "value ?n 1 = Int_val 3"
    by (simp_all add: value_def Value_def ex_machine_def)
  have a: "(\<forall>x \<in> set [1]. \<not> IsError (value ?m x) \<and> \<not> IsUnknown (value ?m x)) \<and>
    (IsError (value ?m 2) \<or> IsUnknown (value ?m 2))"
    by (simp add: v IsError_def IsUnknown_def IsErrorType_def IsUnknownType_def)
  have b: "\<forall>x \<in> set [1, 1]. \<not> IsError (value ?n x) \<and> \<not> IsUnknown (value ?n x)"
    by (simp add: v IsError_def IsUnknown_def IsErrorType_def IsUnknownType_def)
  have c: "evalCall ex_interpreter (ex_program []) 4 ''_+_'' ([1] @ 2 # [3]) True ex_root ?m =
     setValue ?m 4 (value ?m 2)"
    using a evalCall_strict [where m = ?m and pre = "[1]" and a = 2 and post = "[3]"
        and I = ex_interpreter and program = "ex_program []" and exprId = 4
        and Function = "''_+_''" and currActivation = ex_root]
    by blast
  have d: "evalCall ex_interpreter (ex_program []) 2 ''_+_'' [1, 1] True ex_root ?n =
     (let ctx = \<lparr>call = CallExpr 2 ''_+_'' [1, 1] True, activation = ex_root,
                    args = map (value ?n) [1, 1], metadata = Metadata (ex_program [])\<rparr>
         in setValue (?n\<lparr>dispatched := dispatched ?n @ [ctx]\<rparr>) 2 (dispatcher ex_interpreter ctx))"
    using b evalCall_strict [where m = ?n and Args = "[1, 1]" and I = ex_interpreter
        and program = "ex_program []" and exprId = 2 and Function = "''_+_''"
        and currActivation = ex_root]
    by blast
  show ?thesis
    apply (rule conjI)
    using c apply (simp add: v) apply (simp add: setValue_def SetValue_def ex_machine_def)
    using d apply (simp add: v) apply (simp add: setValue_def SetValue_def ex_machine_def ex_interpreter_def ex_dispatch_def Let_def)
    done
qed

text \<open>
  C10. A call that is not strict never returns early: the values of all its arguments, errors
  and unknowns among them, are passed in order to the dispatcher, in one call, and what the
  dispatcher returns is stored under the call's id.
\<close>

theorem evalCall_not_strict:
  "let ctx = \<lparr>call = CallExpr exprId Function Args False, activation = currActivation,
              args = map (value m) Args, metadata = Metadata program\<rparr>;
       m' = evalCall I program exprId Function Args False currActivation m
   in dispatched m' = dispatched m @ [ctx] \<and>
      value m' exprId = dispatcher I ctx \<and>
      state m' = SetValue (state m) exprId (dispatcher I ctx)"
proof -
  have "evalCall_args m False Args [] = Inr (map (value m) Args)"
    using evalCall_args_collect [of Args False m "[]"] by simp
  then show ?thesis
    by (simp add: evalCall_def Let_def value_setValue dispatched_setValue)
      (simp add: setValue_def)
qed

theorem evalCall_not_strict_witness:
  "state (evalCall ex_interpreter (ex_program []) 3 ''_+_'' [1, 2] False ex_root
     (ex_machine [(1, Int_val 3), (2, Err ''boom'')])) =
     [(1, Int_val 3), (2, Err ''boom''), (3, Err ''no matching overload'')] \<and>
   map args (dispatched (evalCall ex_interpreter (ex_program []) 3 ''_+_'' [1, 2] False ex_root
     (ex_machine [(1, Int_val 3), (2, Err ''boom'')]))) = [[Int_val 3, Err ''boom'']]"
  using evalCall_not_strict [where exprId = 3 and Function = "''_+_''" and Args = "[1, 2]"
      and currActivation = ex_root and m = "ex_machine [(1, Int_val 3), (2, Err ''boom'')]"
      and program = "ex_program []" and I = ex_interpreter]
  by (simp add: Let_def value_def Value_def ex_machine_def SetValue_def ex_interpreter_def ex_dispatch_def)

section \<open>Identifiers\<close>

text \<open>
  C6. An identifier is resolved by the current activation first; if the activation does not
  find the name, by the type provider's \<open>FindIdent\<close>; if neither finds it, the unknown that
  carries the identifier's own id is stored. A name bound in the activation chain wins over a
  package-level identifier of the same name.
\<close>

theorem evalIdent_precedence:
  "(\<forall>v. ResolveName m currActivation name = Some v \<longrightarrow>
      evalIdent I exprId name currActivation m = setValue m exprId v) \<and>
   (ResolveName m currActivation name = None \<longrightarrow>
      (\<forall>v. FindIdent (typeProvider I) name = Some v \<longrightarrow>
         evalIdent I exprId name currActivation m = setValue m exprId v) \<and>
      (FindIdent (typeProvider I) name = None \<longrightarrow>
         evalIdent I exprId name currActivation m = setValue m exprId (Unknown [exprId])))"
  by (simp add: evalIdent_def)

theorem evalIdent_precedence_witness:
  "ResolveName (ex_machine []) ex_child ''x'' = Some (Int_val 3) \<and>
   FindIdent (typeProvider ex_interpreter) ''x'' = Some (Int_val 7) \<and>
   evalIdent ex_interpreter 1 ''x'' ex_child (ex_machine []) = ex_machine [(1, Int_val 3)] \<and>
   ResolveName (ex_machine []) (MapActivation [] []) ''x'' = None \<and>
   evalIdent ex_interpreter 1 ''x'' (MapActivation [] []) (ex_machine []) = ex_machine [(1, Int_val 7)] \<and>
   ResolveName (ex_machine []) ex_child ''y'' = None \<and>
   FindIdent (typeProvider ex_interpreter) ''y'' = None \<and>
   evalIdent ex_interpreter 1 ''y'' ex_child (ex_machine []) = ex_machine [(1, Unknown [1])]"
proof -
  have a: "ResolveName (ex_machine []) ex_child ''x'' = Some (Int_val 3)"
    by (simp add: ex_child_def ex_root_def)
  have b: "FindIdent (typeProvider ex_interpreter) ''x'' = Some (Int_val 7)"
    by (simp add: ex_interpreter_def)
  have c: "ResolveName (ex_machine []) (MapActivation [] []) ''x'' = None"
    by simp
  have d: "ResolveName (ex_machine []) ex_child ''y'' = None"
    by (simp add: ex_child_def ex_root_def)
  have e: "FindIdent (typeProvider ex_interpreter) ''y'' = None"
    by (simp add: ex_interpreter_def)
  have s: "\<And>k v. setValue (ex_machine []) k v = ex_machine [(k, v)]"
    by (simp add: setValue_def SetValue_def ex_machine_def)
  show ?thesis
    using a b c d e
      evalIdent_precedence [where m = "ex_machine []" and currActivation = ex_child
        and name = "''x''" and I = ex_interpreter and exprId = 1]
      evalIdent_precedence [where m = "ex_machine []" and currActivation = "MapActivation [] []"
        and name = "''x''" and I = ex_interpreter and exprId = 1]
      evalIdent_precedence [where m = "ex_machine []" and currActivation = ex_child
        and name = "''y''" and I = ex_interpreter and exprId = 1]
    by (simp add: s)
qed

section \<open>List and map constructors\<close>

lemma Type_concrete:
  "concrete m k \<Longrightarrow>
   \<exists>t. Type (value m k) = Some t \<and> \<not> IsErrorType t \<and> \<not> IsUnknownType t"
  by (cases "value m k") (simp_all add: concrete_def IsError_def IsUnknown_def)

lemma Type_offending:
  "IsError v \<or> IsUnknown v \<Longrightarrow> \<exists>t. Type v = Some t \<and> (IsErrorType t \<or> IsUnknownType t)"
  by (cases "Type v") (auto simp add: IsError_def IsUnknown_def)

lemma evalCreateList_elements_all:
  "\<forall>x \<in> set Elements. concrete m x \<Longrightarrow>
   evalCreateList_elements m Elements elements = Inr (Inr (elements @ map (value m) Elements))"
proof (induction Elements arbitrary: elements)
  case Nil
  then show ?case by simp
next
  case (Cons x xs)
  then obtain t where "Type (value m x) = Some t" "\<not> IsErrorType t" "\<not> IsUnknownType t"
    using Type_concrete [of m x] by auto
  with Cons show ?case by (simp add: Let_def)
qed

lemma evalCreateList_elements_first:
  "\<forall>x \<in> set pre. concrete m x \<Longrightarrow>
   IsError (value m a) \<or> IsUnknown (value m a) \<Longrightarrow>
   evalCreateList_elements m (pre @ a # post) elements = Inr (Inl (value m a))"
proof (induction pre arbitrary: elements)
  case Nil
  then obtain t where "Type (value m a) = Some t" "IsErrorType t \<or> IsUnknownType t"
    using Type_offending [of "value m a"] by auto
  then show ?case by (simp add: Let_def)
next
  case (Cons x xs)
  then obtain t where "Type (value m x) = Some t" "\<not> IsErrorType t" "\<not> IsUnknownType t"
    using Type_concrete [of m x] by auto
  with Cons show ?case by (simp add: Let_def)
qed

lemma evalCreateMap_entries_all:
  "\<forall>(k, v) \<in> set KeyValues.
      concrete m k \<and> concrete m v \<Longrightarrow>
   evalCreateMap_entries m KeyValues entries =
     Inr (Inr (foldl (\<lambda>es (k, v). put es (value m k) (value m v)) entries KeyValues))"
proof (induction KeyValues arbitrary: entries)
  case Nil
  then show ?case by simp
next
  case (Cons kv kvs)
  obtain k v where kv: "kv = (k, v)" by (cases kv)
  from Cons.prems kv obtain kt where kt: "Type (value m k) = Some kt" "\<not> IsErrorType kt" "\<not> IsUnknownType kt"
    using Type_concrete [of m k] by auto
  from Cons.prems kv obtain vt where vt: "Type (value m v) = Some vt" "\<not> IsErrorType vt" "\<not> IsUnknownType vt"
    using Type_concrete [of m v] by auto
  from Cons.prems have "\<forall>(k, v) \<in> set kvs.
      concrete m k \<and> concrete m v"
    by simp
  then show ?case
    using Cons.IH kv kt vt by (simp add: Let_def)
qed

lemma evalCreateMap_entries_prefix:
  "\<forall>(k, v) \<in> set pre.
      concrete m k \<and> concrete m v \<Longrightarrow>
   evalCreateMap_entries m (pre @ rest) entries =
     evalCreateMap_entries m rest
       (foldl (\<lambda>es (k, v). put es (value m k) (value m v)) entries pre)"
proof (induction pre arbitrary: entries)
  case Nil
  then show ?case by simp
next
  case (Cons kv kvs)
  obtain k v where kv: "kv = (k, v)" by (cases kv)
  from Cons.prems kv obtain kt where kt: "Type (value m k) = Some kt" "\<not> IsErrorType kt" "\<not> IsUnknownType kt"
    using Type_concrete [of m k] by auto
  from Cons.prems kv obtain vt where vt: "Type (value m v) = Some vt" "\<not> IsErrorType vt" "\<not> IsUnknownType vt"
    using Type_concrete [of m v] by auto
  from Cons.prems have "\<forall>(k, v) \<in> set kvs.
      concrete m k \<and> concrete m v"
    by simp
  then show ?case
    using Cons.IH [of "put entries (value m k) (value m v)"] kv kt vt by (simp add: Let_def)
qed

lemma evalCreateMap_entries_key:
  "IsError (value m keyId) \<or> IsUnknown (value m keyId) \<Longrightarrow>
   evalCreateMap_entries m ((keyId, valueId) # post) entries = Inr (Inl (value m keyId))"
proof -
  assume "IsError (value m keyId) \<or> IsUnknown (value m keyId)"
  then obtain t where "Type (value m keyId) = Some t" "IsErrorType t \<or> IsUnknownType t"
    using Type_offending [of "value m keyId"] by auto
  then show ?thesis by (simp add: Let_def)
qed

lemma evalCreateMap_entries_value:
  "concrete m keyId \<Longrightarrow>
   IsError (value m valueId) \<or> IsUnknown (value m valueId) \<Longrightarrow>
   evalCreateMap_entries m ((keyId, valueId) # post) entries = Inr (Inl (value m valueId))"
proof -
  assume k: "concrete m keyId"
    and v: "IsError (value m valueId) \<or> IsUnknown (value m valueId)"
  from k obtain kt where kt: "Type (value m keyId) = Some kt" "\<not> IsErrorType kt" "\<not> IsUnknownType kt"
    using Type_concrete [of m keyId] by auto
  from v obtain t where "Type (value m valueId) = Some t" "IsErrorType t \<or> IsUnknownType t"
    using Type_offending [of "value m valueId"] by auto
  with kt show ?thesis by (simp add: Let_def)
qed


lemma evalCreateList_first:
  "\<forall>x \<in> set pre. concrete m x \<Longrightarrow> IsError (value m a) \<or> IsUnknown (value m a) \<Longrightarrow>
   evalCreateList exprId (pre @ a # post) m = Inr (setValue m exprId (value m a))"
  using evalCreateList_elements_first [of pre m a post "[]"] by (simp add: evalCreateList_def)

lemma evalCreateList_all:
  "\<forall>x \<in> set Elements. concrete m x \<Longrightarrow>
   evalCreateList exprId Elements m =
     Inr (setValue m exprId (DynamicList (map (value m) Elements)))"
  using evalCreateList_elements_all [of Elements m "[]"] by (simp add: evalCreateList_def)

lemma evalCreateMap_key:
  "range_ids m KeyValues = kpre @ (keyId, valueId) # kpost \<Longrightarrow>
   \<forall>(k, v) \<in> set kpre. concrete m k \<and> concrete m v \<Longrightarrow>
   IsError (value m keyId) \<or> IsUnknown (value m keyId) \<Longrightarrow>
   evalCreateMap exprId KeyValues m = Inr (setValue (ranged m) exprId (value m keyId))"
  using evalCreateMap_entries_prefix [of kpre m "(keyId, valueId) # kpost" "[]"]
    evalCreateMap_entries_key [of m keyId valueId kpost]
  by (simp add: evalCreateMap_def)

lemma evalCreateMap_value:
  "range_ids m KeyValues = kpre @ (keyId, valueId) # kpost \<Longrightarrow>
   \<forall>(k, v) \<in> set kpre. concrete m k \<and> concrete m v \<Longrightarrow>
   concrete m keyId \<Longrightarrow>
   IsError (value m valueId) \<or> IsUnknown (value m valueId) \<Longrightarrow>
   evalCreateMap exprId KeyValues m = Inr (setValue (ranged m) exprId (value m valueId))"
  using evalCreateMap_entries_prefix [of kpre m "(keyId, valueId) # kpost" "[]"]
    evalCreateMap_entries_value [of m keyId valueId kpost]
  by (simp add: evalCreateMap_def)

lemma evalCreateMap_all:
  "\<forall>(k, v) \<in> set KeyValues. concrete m k \<and> concrete m v \<Longrightarrow>
   evalCreateMap exprId KeyValues m =
     Inr (setValue (ranged m) exprId
       (DynamicMap (foldl (\<lambda>es (k, v). put es (value m k) (value m v)) []
          (range_ids m KeyValues))))"
  using evalCreateMap_entries_all [of "range_ids m KeyValues" m "[]"]
  by (simp add: evalCreateMap_def set_range_ids)

text \<open>
  Whatever the order of the visit, a map constructor with no nil component and with a key or
  a value that is an error or an unknown stores one of these.
\<close>

lemma evalCreateMap_some_offender:
  assumes nonnil: "\<forall>(k, v) \<in> set KeyValues. value m k \<noteq> NilValue \<and> value m v \<noteq> NilValue"
    and off: "\<exists>(k, v) \<in> set KeyValues.
        IsError (value m k) \<or> IsUnknown (value m k) \<or>
        IsError (value m v) \<or> IsUnknown (value m v)"
  shows "\<exists>x \<in> fst ` set KeyValues \<union> snd ` set KeyValues.
      (IsError (value m x) \<or> IsUnknown (value m x)) \<and>
      evalCreateMap exprId KeyValues m = Inr (setValue (ranged m) exprId (value m x))"
proof -
  let ?P = "\<lambda>(k, v). IsError (value m k) \<or> IsUnknown (value m k) \<or>
        IsError (value m v) \<or> IsUnknown (value m v)"
  from off have "\<exists>e \<in> set (range_ids m KeyValues). ?P e"
    by (simp add: set_range_ids)
  then obtain kpre e kpost where split: "range_ids m KeyValues = kpre @ e # kpost"
    and e: "?P e" and before: "\<forall>y \<in> set kpre. \<not> ?P y"
    using split_list_first_prop [of "range_ids m KeyValues" ?P] by blast
  obtain keyId valueId where kv: "e = (keyId, valueId)" by (cases e)
  have sub: "set kpre \<subseteq> set KeyValues" and mem: "(keyId, valueId) \<in> set KeyValues"
    using split kv set_range_ids [of m KeyValues] by auto
  have pre: "\<forall>(k, v) \<in> set kpre. concrete m k \<and> concrete m v"
    using before nonnil sub by (fastforce simp add: concrete_def)
  show ?thesis
  proof (cases "IsError (value m keyId) \<or> IsUnknown (value m keyId)")
    case True
    have "evalCreateMap exprId KeyValues m = Inr (setValue (ranged m) exprId (value m keyId))"
      using split pre True unfolding kv by (rule evalCreateMap_key)
    moreover have "keyId \<in> fst ` set KeyValues \<union> snd ` set KeyValues"
      using mem by force
    ultimately show ?thesis using True by blast
  next
    case False
    with e kv have v: "IsError (value m valueId) \<or> IsUnknown (value m valueId)"
      by simp
    have k: "concrete m keyId"
      using False nonnil mem by (fastforce simp add: concrete_def)
    have "evalCreateMap exprId KeyValues m = Inr (setValue (ranged m) exprId (value m valueId))"
      using split pre k v unfolding kv by (rule evalCreateMap_value)
    moreover have "valueId \<in> fst ` set KeyValues \<union> snd ` set KeyValues"
      using mem by force
    ultimately show ?thesis using v by blast
  qed
qed


text \<open>
  C2 (as amended). A list constructor whose elements before \<open>a\<close> are concrete values (none
  of them nil) and whose element \<open>a\<close> is an error or an unknown stores the value of \<open>a\<close>
  and builds no list; it stores the list of the elements' values when all of them are
  concrete. A map constructor meets its entries in the order of the visit of the runtime,
  the key of an entry before its value: when the keys and values visited before are
  concrete, the first key or value that is an error or an unknown is stored and no map is
  built; the map of the entries is stored when all keys and values are concrete. Whatever
  the order of the visit, a map constructor with no nil component and some error or unknown
  among its keys and values stores one of these errors or unknowns.
\<close>

theorem exec_create_strict:
  "((\<forall>x \<in> set pre. concrete m x) \<and> (IsError (value m a) \<or> IsUnknown (value m a)) \<longrightarrow>
      stores (exec Get I program (CreateListExpr exprId (pre @ a # post))
                (cursor, currActivation, m))
        cursor currActivation m exprId (value m a)) \<and>
   ((\<forall>x \<in> set Elements. concrete m x) \<longrightarrow>
      stores (exec Get I program (CreateListExpr exprId Elements) (cursor, currActivation, m))
        cursor currActivation m exprId (DynamicList (map (value m) Elements))) \<and>
   (range_ids m KeyValues = kpre @ (keyId, valueId) # kpost \<and>
    (\<forall>(k, v) \<in> set kpre. concrete m k \<and> concrete m v) \<and>
    (IsError (value m keyId) \<or> IsUnknown (value m keyId)) \<longrightarrow>
      stores (exec Get I program (CreateMapExpr exprId KeyValues) (cursor, currActivation, m))
        cursor currActivation m exprId (value m keyId)) \<and>
   (range_ids m KeyValues = kpre @ (keyId, valueId) # kpost \<and>
    (\<forall>(k, v) \<in> set kpre. concrete m k \<and> concrete m v) \<and> concrete m keyId \<and>
    (IsError (value m valueId) \<or> IsUnknown (value m valueId)) \<longrightarrow>
      stores (exec Get I program (CreateMapExpr exprId KeyValues) (cursor, currActivation, m))
        cursor currActivation m exprId (value m valueId)) \<and>
   ((\<forall>(k, v) \<in> set KeyValues. concrete m k \<and> concrete m v) \<longrightarrow>
      stores (exec Get I program (CreateMapExpr exprId KeyValues) (cursor, currActivation, m))
        cursor currActivation m exprId
        (DynamicMap (foldl (\<lambda>es (k, v). put es (value m k) (value m v)) []
           (range_ids m KeyValues)))) \<and>
   ((\<forall>(k, v) \<in> set KeyValues. value m k \<noteq> NilValue \<and> value m v \<noteq> NilValue) \<and>
    (\<exists>(k, v) \<in> set KeyValues.
        IsError (value m k) \<or> IsUnknown (value m k) \<or>
        IsError (value m v) \<or> IsUnknown (value m v)) \<longrightarrow>
      (\<exists>x \<in> fst ` set KeyValues \<union> snd ` set KeyValues.
         (IsError (value m x) \<or> IsUnknown (value m x)) \<and>
         stores (exec Get I program (CreateMapExpr exprId KeyValues) (cursor, currActivation, m))
           cursor currActivation m exprId (value m x)))"
proof (intro conjI impI)
  assume "(\<forall>x \<in> set pre. concrete m x) \<and> (IsError (value m a) \<or> IsUnknown (value m a))"
  then have "evalCreateList exprId (pre @ a # post) m = Inr (setValue m exprId (value m a))"
    using evalCreateList_first [of pre m a exprId post] by blast
  then show "stores (exec Get I program (CreateListExpr exprId (pre @ a # post))
                (cursor, currActivation, m))
        cursor currActivation m exprId (value m a)"
    by (intro stores_setValue [of _ _ _ m]) simp_all
next
  assume "\<forall>x \<in> set Elements. concrete m x"
  then have "evalCreateList exprId Elements m =
      Inr (setValue m exprId (DynamicList (map (value m) Elements)))"
    by (rule evalCreateList_all)
  then show "stores (exec Get I program (CreateListExpr exprId Elements)
      (cursor, currActivation, m))
        cursor currActivation m exprId (DynamicList (map (value m) Elements))"
    by (intro stores_setValue [of _ _ _ m]) simp_all
next
  assume "range_ids m KeyValues = kpre @ (keyId, valueId) # kpost \<and>
    (\<forall>(k, v) \<in> set kpre. concrete m k \<and> concrete m v) \<and>
    (IsError (value m keyId) \<or> IsUnknown (value m keyId))"
  then have "evalCreateMap exprId KeyValues m =
      Inr (setValue (ranged m) exprId (value m keyId))"
    using evalCreateMap_key [of m KeyValues kpre keyId valueId kpost exprId] by blast
  then show "stores (exec Get I program (CreateMapExpr exprId KeyValues)
      (cursor, currActivation, m))
        cursor currActivation m exprId (value m keyId)"
    by (intro stores_setValue [of _ _ _ "ranged m"]) (simp_all add: state_ranged)
next
  assume "range_ids m KeyValues = kpre @ (keyId, valueId) # kpost \<and>
    (\<forall>(k, v) \<in> set kpre. concrete m k \<and> concrete m v) \<and> concrete m keyId \<and>
    (IsError (value m valueId) \<or> IsUnknown (value m valueId))"
  then have "evalCreateMap exprId KeyValues m =
      Inr (setValue (ranged m) exprId (value m valueId))"
    using evalCreateMap_value [of m KeyValues kpre keyId valueId kpost exprId] by blast
  then show "stores (exec Get I program (CreateMapExpr exprId KeyValues)
      (cursor, currActivation, m))
        cursor currActivation m exprId (value m valueId)"
    by (intro stores_setValue [of _ _ _ "ranged m"]) (simp_all add: state_ranged)
next
  assume "\<forall>(k, v) \<in> set KeyValues. concrete m k \<and> concrete m v"
  then have "evalCreateMap exprId KeyValues m =
     Inr (setValue (ranged m) exprId
       (DynamicMap (foldl (\<lambda>es (k, v). put es (value m k) (value m v)) []
          (range_ids m KeyValues))))"
    by (rule evalCreateMap_all)
  then show "stores (exec Get I program (CreateMapExpr exprId KeyValues)
      (cursor, currActivation, m))
        cursor currActivation m exprId
        (DynamicMap (foldl (\<lambda>es (k, v). put es (value m k) (value m v)) []
           (range_ids m KeyValues)))"
    by (intro stores_setValue [of _ _ _ "ranged m"]) (simp_all add: state_ranged)
next
  assume h: "(\<forall>(k, v) \<in> set KeyValues. value m k \<noteq> NilValue \<and> value m v \<noteq> NilValue) \<and>
    (\<exists>(k, v) \<in> set KeyValues.
        IsError (value m k) \<or> IsUnknown (value m k) \<or>
        IsError (value m v) \<or> IsUnknown (value m v))"
  then obtain x where x: "x \<in> fst ` set KeyValues \<union> snd ` set KeyValues"
    "IsError (value m x) \<or> IsUnknown (value m x)"
    "evalCreateMap exprId KeyValues m = Inr (setValue (ranged m) exprId (value m x))"
    using evalCreateMap_some_offender [of KeyValues m exprId] by blast
  from x(3) have "stores (exec Get I program (CreateMapExpr exprId KeyValues)
      (cursor, currActivation, m)) cursor currActivation m exprId (value m x)"
    by (intro stores_setValue [of _ _ _ "ranged m"]) (simp_all add: state_ranged)
  with x(1,2) show "\<exists>x \<in> fst ` set KeyValues \<union> snd ` set KeyValues.
         (IsError (value m x) \<or> IsUnknown (value m x)) \<and>
         stores (exec Get I program (CreateMapExpr exprId KeyValues) (cursor, currActivation, m))
           cursor currActivation m exprId (value m x)"
    by blast
qed

lemma ex_state_values:
  "value (ex_machine ex_state) 1 = Int_val 3"
  "value (ex_machine ex_state) 2 = Err ''boom''"
  "value (ex_machine ex_state) 3 = Unknown [3]"
  "value (ex_machine ex_state) 4 = String ''k''"
  by (simp_all add: value_def Value_def ex_machine_def ex_state_def)

lemma ex_state_kinds:
  "concrete (ex_machine ex_state) 1" "concrete (ex_machine ex_state) 4"
  "IsError (value (ex_machine ex_state) 2)" "IsUnknown (value (ex_machine ex_state) 3)"
  by (simp_all add: concrete_def ex_state_values kinds)

theorem exec_create_strict_witness:
  "stores (exec ex_Get ex_interpreter (ex_program []) (CreateListExpr 9 [1, 2, 3])
       (0, ex_root, ex_machine ex_state)) 0 ex_root (ex_machine ex_state) 9 (Err ''boom'') \<and>
   stores (exec ex_Get ex_interpreter (ex_program []) (CreateListExpr 9 [1, 4])
       (0, ex_root, ex_machine ex_state)) 0 ex_root (ex_machine ex_state) 9
     (DynamicList [Int_val 3, String ''k'']) \<and>
   stores (exec ex_Get ex_interpreter (ex_program []) (CreateMapExpr 9 [(4, 1), (3, 2)])
       (0, ex_root, ex_machine ex_state)) 0 ex_root (ex_machine ex_state) 9 (Unknown [3]) \<and>
   stores (exec ex_Get ex_interpreter (ex_program []) (CreateMapExpr 9 [(4, 1), (1, 2), (3, 3)])
       (0, ex_root, ex_machine ex_state)) 0 ex_root (ex_machine ex_state) 9 (Err ''boom'') \<and>
   stores (exec ex_Get ex_interpreter (ex_program []) (CreateMapExpr 9 [(4, 1), (1, 4)])
       (0, ex_root, ex_machine ex_state)) 0 ex_root (ex_machine ex_state) 9
     (DynamicMap [(String ''k'', Int_val 3), (Int_val 3, String ''k'')]) \<and>
   (\<exists>x \<in> fst ` set ([(4, 1), (3, 2)] :: (int \<times> int) list) \<union>
         snd ` set ([(4, 1), (3, 2)] :: (int \<times> int) list).
      (IsError (value (ex_machine ex_state) x) \<or> IsUnknown (value (ex_machine ex_state) x)) \<and>
      stores (exec ex_Get ex_interpreter (ex_program []) (CreateMapExpr 9 [(4, 1), (3, 2)])
          (0, ex_root, ex_machine ex_state)) 0 ex_root (ex_machine ex_state) 9
        (value (ex_machine ex_state) x))"
proof -
  let ?m = "ex_machine ex_state"
  have a: "(\<forall>x \<in> set [1]. concrete ?m x) \<and> (IsError (value ?m 2) \<or> IsUnknown (value ?m 2))"
    by (simp add: ex_state_kinds)
  have b: "\<forall>x \<in> set [1, 4]. concrete ?m x"
    by (simp add: ex_state_kinds)
  have c: "range_ids ?m [(4, 1), (3, 2)] = [(4, 1)] @ (3, 2) # [] \<and>
    (\<forall>(k, v) \<in> set [(4, 1)]. concrete ?m k \<and> concrete ?m v) \<and>
    (IsError (value ?m 3) \<or> IsUnknown (value ?m 3))"
    by (simp add: ex_state_kinds ex_range_ids)
  have d: "range_ids ?m [(4, 1), (1, 2), (3, 3)] = [(4, 1)] @ (1, 2) # [(3, 3)] \<and>
    (\<forall>(k, v) \<in> set [(4, 1)]. concrete ?m k \<and> concrete ?m v) \<and> concrete ?m 1 \<and>
    (IsError (value ?m 2) \<or> IsUnknown (value ?m 2))"
    by (simp add: ex_state_kinds ex_range_ids)
  have e: "\<forall>(k, v) \<in> set [(4, 1), (1, 4)]. concrete ?m k \<and> concrete ?m v"
    by (simp add: ex_state_kinds)
  have f: "(\<forall>(k, v) \<in> set [(4, 1), (3, 2)]. value ?m k \<noteq> NilValue \<and> value ?m v \<noteq> NilValue) \<and>
    (\<exists>(k, v) \<in> set [(4, 1), (3, 2)].
        IsError (value ?m k) \<or> IsUnknown (value ?m k) \<or>
        IsError (value ?m v) \<or> IsUnknown (value ?m v))"
    by (simp add: ex_state_values kinds)
  note t = exec_create_strict [where m = ?m and exprId = 9 and Get = ex_Get
      and I = ex_interpreter and program = "ex_program []" and cursor = 0
      and currActivation = ex_root]
  have r1: "stores (exec ex_Get ex_interpreter (ex_program []) (CreateListExpr 9 ([1] @ 2 # [3]))
       (0, ex_root, ?m)) 0 ex_root ?m 9 (value ?m 2)"
    using a t [where pre = "[1]" and a = 2 and post = "[3]"] by blast
  have r2: "stores (exec ex_Get ex_interpreter (ex_program []) (CreateListExpr 9 [1, 4])
       (0, ex_root, ?m)) 0 ex_root ?m 9 (DynamicList (map (value ?m) [1, 4]))"
    using b t [where Elements = "[1, 4]"] by blast
  have r3: "stores (exec ex_Get ex_interpreter (ex_program []) (CreateMapExpr 9 [(4, 1), (3, 2)])
       (0, ex_root, ?m)) 0 ex_root ?m 9 (value ?m 3)"
    using c t [where KeyValues = "[(4, 1), (3, 2)]" and kpre = "[(4, 1)]" and keyId = 3
        and valueId = 2 and kpost = "[]"] by blast
  have r4: "stores (exec ex_Get ex_interpreter (ex_program [])
       (CreateMapExpr 9 [(4, 1), (1, 2), (3, 3)])
       (0, ex_root, ?m)) 0 ex_root ?m 9 (value ?m 2)"
    using d t [where KeyValues = "[(4, 1), (1, 2), (3, 3)]" and kpre = "[(4, 1)]" and keyId = 1
        and valueId = 2 and kpost = "[(3, 3)]"] by blast
  have r5: "stores (exec ex_Get ex_interpreter (ex_program []) (CreateMapExpr 9 [(4, 1), (1, 4)])
       (0, ex_root, ?m)) 0 ex_root ?m 9
       (DynamicMap (foldl (\<lambda>es (k, v). put es (value ?m k) (value ?m v)) []
           (range_ids ?m [(4, 1), (1, 4)])))"
    using e t [where KeyValues = "[(4, 1), (1, 4)]"] by blast
  have r6: "\<exists>x \<in> fst ` set ([(4, 1), (3, 2)] :: (int \<times> int) list) \<union>
         snd ` set ([(4, 1), (3, 2)] :: (int \<times> int) list).
      (IsError (value ?m x) \<or> IsUnknown (value ?m x)) \<and>
      stores (exec ex_Get ex_interpreter (ex_program []) (CreateMapExpr 9 [(4, 1), (3, 2)])
          (0, ex_root, ?m)) 0 ex_root ?m 9 (value ?m x)"
    by (rule mp [OF t [where KeyValues = "[(4, 1), (3, 2)]", THEN conjunct2, THEN conjunct2,
          THEN conjunct2, THEN conjunct2, THEN conjunct2] f])
  have s1: "stores (exec ex_Get ex_interpreter (ex_program []) (CreateListExpr 9 [1, 2, 3])
       (0, ex_root, ?m)) 0 ex_root ?m 9 (Err ''boom'')"
    using r1 by (simp add: ex_state_values)
  have s2: "stores (exec ex_Get ex_interpreter (ex_program []) (CreateListExpr 9 [1, 4])
       (0, ex_root, ?m)) 0 ex_root ?m 9 (DynamicList [Int_val 3, String ''k''])"
    using r2 by (simp add: ex_state_values)
  have s3: "stores (exec ex_Get ex_interpreter (ex_program []) (CreateMapExpr 9 [(4, 1), (3, 2)])
       (0, ex_root, ?m)) 0 ex_root ?m 9 (Unknown [3])"
    using r3 by (simp add: ex_state_values)
  have s4: "stores (exec ex_Get ex_interpreter (ex_program [])
       (CreateMapExpr 9 [(4, 1), (1, 2), (3, 3)])
       (0, ex_root, ?m)) 0 ex_root ?m 9 (Err ''boom'')"
    using r4 by (simp add: ex_state_values)
  have s5: "stores (exec ex_Get ex_interpreter (ex_program []) (CreateMapExpr 9 [(4, 1), (1, 4)])
       (0, ex_root, ?m)) 0 ex_root ?m 9
       (DynamicMap [(String ''k'', Int_val 3), (Int_val 3, String ''k'')])"
    using r5 by (simp add: ex_state_values ex_range_ids)
  show ?thesis
    using s1 s2 s3 s4 s5 r6 by (intro conjI)
qed

text \<open>
  C2 as stated fails: the instruction and the Eval State do not determine which offending
  component of a map is the first. The map with the entries 4: 1, 1: 2 and 3: 3, on the
  state in which id 2 holds an error and id 3 an unknown, stores the error when the runtime
  visits the entries as they are written, and the unknown when it visits the key 3 first.
\<close>

theorem exec_create_strict_counterexample:
  "state (ex_machine_ranked ex_state) = state (ex_machine ex_state) \<and>
   exec ex_Get ex_interpreter (ex_program []) (CreateMapExpr 9 [(4, 1), (1, 2), (3, 3)])
     (0, ex_root, ex_machine ex_state) =
     Inr (0, ex_root, setValue (ranged (ex_machine ex_state)) 9 (Err ''boom'')) \<and>
   exec ex_Get ex_interpreter (ex_program []) (CreateMapExpr 9 [(4, 1), (1, 2), (3, 3)])
     (0, ex_root, ex_machine_ranked ex_state) =
     Inr (0, ex_root, setValue (ranged (ex_machine_ranked ex_state)) 9 (Unknown [3])) \<and>
   Value (state (setValue (ranged (ex_machine ex_state)) 9 (Err ''boom''))) 9 =
     Some (Err ''boom'') \<and>
   Value (state (setValue (ranged (ex_machine_ranked ex_state)) 9 (Unknown [3]))) 9 =
     Some (Unknown [3])"
  by (simp add: ex_machine_ranked_def ex_machine_def ex_state_def evalCreateMap_def
      range_ids_def ex_rank_def value_def Value_def kinds Let_def setValue_def SetValue_def
      ranged_def)

section \<open>Selects\<close>

text \<open>
  C3. The program \<open>x.f\<close> with \<open>x\<close> bound to the integer 3: the operand of the select is not
  an indexer and not an unknown. The error "invalid operand in select" is stored under the
  id of the operand, 1, where it replaces the operand's value, and nothing is stored under
  the id of the select, 2: the result of \<open>Eval\<close> is the unknown of the read of an unset id.
\<close>

theorem evalSelect_invalid_operand:
  "Eval 3 ex_Get ex_interpreter (ex_program [IdentExpr 1 ''x'', SelectExpr 2 1 ''f'']) ex_root
     (ex_machine []) =
   Some (Inr (Unknown [2], ex_machine [(1, Err ''invalid operand in select'')]))"
  by (simp add: Eval_def numeral_3_eq_3 ex_program_def Next_def evalIdent_def ex_root_def
      ex_machine_def setValue_def SetValue_def evalSelect_def value_def Value_def Let_def kinds)

section \<open>The resolution of unknown operands\<close>

lemma resolveUnknown_name_eq:
  "\<forall>arg \<in> set unknown. segment program m arg = None \<longrightarrow> value m arg \<noteq> NilValue \<Longrightarrow>
   resolveUnknown_name program m unknown (validIdent, ident) =
     Inr (validIdent \<and> (\<forall>arg \<in> set unknown. segment program m arg \<noteq> None),
          qualified_name program m unknown ident)"
proof (induction unknown arbitrary: validIdent ident)
  case Nil
  then show ?case by simp
next
  case (Cons arg rest)
  then have rest: "\<forall>arg \<in> set rest. segment program m arg = None \<longrightarrow> value m arg \<noteq> NilValue"
    by simp
  show ?case
  proof (cases "segment program m arg")
    case (Some seg)
    then have "resolveUnknown_name program m (arg # rest) (validIdent, ident) =
        resolveUnknown_name program m rest (validIdent, seg @ ''.'' @ ident)"
      by (auto simp add: segment_def split: option.splits instruction.splits val.splits)
    then show ?thesis
      using Cons.IH [OF rest, of validIdent "seg @ ''.'' @ ident"] Some by simp
  next
    case None
    with Cons.prems have "value m arg \<noteq> NilValue" by simp
    with None have "resolveUnknown_name program m (arg # rest) (validIdent, ident) =
        resolveUnknown_name program m rest (False, ident)"
      by (auto simp add: segment_def split: option.splits instruction.splits val.splits)
    then show ?thesis
      using Cons.IH [OF rest, of False ident] None by simp
  qed
qed

lemma resolveUnknown_candidates_none:
  "\<forall>c \<in> set cs. ResolveName m currActivation c = None \<and> FindIdent (typeProvider I) c = None \<Longrightarrow>
   resolveUnknown_candidates I m currActivation cs = None"
  by (induction cs) simp_all

lemma resolveUnknown_candidates_first:
  "\<forall>c \<in> set cpre. ResolveName m currActivation c = None \<and> FindIdent (typeProvider I) c = None \<Longrightarrow>
   resolveUnknown_candidates I m currActivation (cpre @ cand # cpost) =
     (case ResolveName m currActivation cand of
        Some object \<Rightarrow> Some object
      | None \<Rightarrow>
          (case FindIdent (typeProvider I) cand of
             Some identVal \<Rightarrow> Some identVal
           | None \<Rightarrow> resolveUnknown_candidates I m currActivation cpost))"
  by (induction cpre) simp_all

lemma evalSelect_unknown:
  "value m Operand = Unknown unknown \<Longrightarrow>
   evalSelect Get I program exprId Operand Field' currActivation m =
     resolveUnknown I program unknown exprId Field' currActivation m"
  by (simp add: evalSelect_def kinds)

lemma exec_select_unknown:
  "value m Operand = Unknown unknown \<Longrightarrow>
   resolveUnknown I program unknown exprId Field' currActivation m = Inr m' \<Longrightarrow>
   exec Get I program (SelectExpr exprId Operand Field') (cursor, currActivation, m) =
     Inr (cursor, currActivation, m')"
  by (simp add: evalSelect_unknown)

lemma resolveUnknown_valid:
  "ResolveReference currActivation exprId = None \<Longrightarrow>
   \<forall>arg \<in> set unknown. segment program m arg \<noteq> None \<Longrightarrow>
   resolveUnknown I program unknown exprId Field' currActivation m =
     Inr (setValue m exprId
       (case resolveUnknown_candidates I m currActivation
               (packager I (qualified_name program m unknown Field')) of
          Some object \<Rightarrow> object
        | None \<Rightarrow> Unknown (exprId # unknown)))"
proof -
  assume r: "ResolveReference currActivation exprId = None"
    and v: "\<forall>arg \<in> set unknown. segment program m arg \<noteq> None"
  from v have n: "\<forall>arg \<in> set unknown. segment program m arg = None \<longrightarrow> value m arg \<noteq> NilValue"
    by blast
  have "resolveUnknown_name program m unknown (True, Field') =
      Inr (True, qualified_name program m unknown Field')"
    using resolveUnknown_name_eq [OF n, of True Field'] v by simp
  with r show ?thesis
    by (simp add: resolveUnknown_def split: option.splits)
qed

lemma resolveUnknown_invalid:
  "ResolveReference currActivation exprId = None \<Longrightarrow>
   \<exists>arg \<in> set unknown. segment program m arg = None \<Longrightarrow>
   \<forall>arg \<in> set unknown. segment program m arg = None \<longrightarrow> value m arg \<noteq> NilValue \<Longrightarrow>
   resolveUnknown I program unknown exprId Field' currActivation m = Inr m"
proof -
  assume r: "ResolveReference currActivation exprId = None"
    and i: "\<exists>arg \<in> set unknown. segment program m arg = None"
    and n: "\<forall>arg \<in> set unknown. segment program m arg = None \<longrightarrow> value m arg \<noteq> NilValue"
  from i have "\<not> (\<forall>arg \<in> set unknown. segment program m arg \<noteq> None)" by blast
  then have "resolveUnknown_name program m unknown (True, Field') =
      Inr (False, qualified_name program m unknown Field')"
    using resolveUnknown_name_eq [OF n, of True Field'] by simp
  with r show ?thesis
    by (simp add: resolveUnknown_def)
qed

text \<open>
  C7 (as amended). A select whose operand evaluated to an unknown stores the activation's
  resolved reference for its id when there is one. Otherwise, when every id of the unknown
  gives a name segment, it stores the value of the first candidate spelling of the dotted
  name that the activation finds or, failing that, the type provider finds, and the unknown
  with its own id put before the operand's ids when no candidate is found. When some id
  gives no segment (an instruction that is neither an \<open>Ident\<close> nor a \<open>Select\<close> and whose
  value is not a string) and none of the values so read is nil, it returns without storing
  anything: the machine is unchanged.
\<close>

theorem exec_select_of_unknown:
  "(value m Operand = Unknown unknown \<and> ResolveReference currActivation exprId = Some object \<longrightarrow>
      stores (exec Get I program (SelectExpr exprId Operand Field') (cursor, currActivation, m))
        cursor currActivation m exprId object) \<and>
   (value m Operand = Unknown unknown \<and> ResolveReference currActivation exprId = None \<and>
    (\<forall>arg \<in> set unknown. segment program m arg \<noteq> None) \<and>
    packager I (qualified_name program m unknown Field') = cpre @ cand # cpost \<and>
    (\<forall>c \<in> set cpre. ResolveName m currActivation c = None \<and>
                     FindIdent (typeProvider I) c = None) \<and>
    ResolveName m currActivation cand = Some object \<longrightarrow>
      stores (exec Get I program (SelectExpr exprId Operand Field') (cursor, currActivation, m))
        cursor currActivation m exprId object) \<and>
   (value m Operand = Unknown unknown \<and> ResolveReference currActivation exprId = None \<and>
    (\<forall>arg \<in> set unknown. segment program m arg \<noteq> None) \<and>
    packager I (qualified_name program m unknown Field') = cpre @ cand # cpost \<and>
    (\<forall>c \<in> set cpre. ResolveName m currActivation c = None \<and>
                     FindIdent (typeProvider I) c = None) \<and>
    ResolveName m currActivation cand = None \<and>
    FindIdent (typeProvider I) cand = Some object \<longrightarrow>
      stores (exec Get I program (SelectExpr exprId Operand Field') (cursor, currActivation, m))
        cursor currActivation m exprId object) \<and>
   (value m Operand = Unknown unknown \<and> ResolveReference currActivation exprId = None \<and>
    (\<forall>arg \<in> set unknown. segment program m arg \<noteq> None) \<and>
    (\<forall>c \<in> set (packager I (qualified_name program m unknown Field')).
        ResolveName m currActivation c = None \<and> FindIdent (typeProvider I) c = None) \<longrightarrow>
      stores (exec Get I program (SelectExpr exprId Operand Field') (cursor, currActivation, m))
        cursor currActivation m exprId (Unknown (exprId # unknown))) \<and>
   (value m Operand = Unknown unknown \<and> ResolveReference currActivation exprId = None \<and>
    (\<exists>arg \<in> set unknown. segment program m arg = None) \<and>
    (\<forall>arg \<in> set unknown. segment program m arg = None \<longrightarrow> value m arg \<noteq> NilValue) \<longrightarrow>
      exec Get I program (SelectExpr exprId Operand Field') (cursor, currActivation, m) =
        Inr (cursor, currActivation, m))"
proof (intro conjI impI)
  assume h: "value m Operand = Unknown unknown \<and>
    ResolveReference currActivation exprId = Some object"
  then have "resolveUnknown I program unknown exprId Field' currActivation m =
      Inr (setValue m exprId object)"
    by (simp add: resolveUnknown_def)
  with h have "exec Get I program (SelectExpr exprId Operand Field') (cursor, currActivation, m) =
      Inr (cursor, currActivation, setValue m exprId object)"
    by (intro exec_select_unknown) simp_all
  then show "stores (exec Get I program (SelectExpr exprId Operand Field')
      (cursor, currActivation, m)) cursor currActivation m exprId object"
    by (intro stores_setValue [of _ _ _ m]) simp_all
next
  assume h: "value m Operand = Unknown unknown \<and> ResolveReference currActivation exprId = None \<and>
    (\<forall>arg \<in> set unknown. segment program m arg \<noteq> None) \<and>
    packager I (qualified_name program m unknown Field') = cpre @ cand # cpost \<and>
    (\<forall>c \<in> set cpre. ResolveName m currActivation c = None \<and>
                     FindIdent (typeProvider I) c = None) \<and>
    ResolveName m currActivation cand = Some object"
  then have "resolveUnknown_candidates I m currActivation
      (packager I (qualified_name program m unknown Field')) = Some object"
    using resolveUnknown_candidates_first [of cpre m currActivation I cand cpost] by simp
  with h have "resolveUnknown I program unknown exprId Field' currActivation m =
      Inr (setValue m exprId object)"
    using resolveUnknown_valid [of currActivation exprId unknown program m I Field'] by simp
  with h have "exec Get I program (SelectExpr exprId Operand Field') (cursor, currActivation, m) =
      Inr (cursor, currActivation, setValue m exprId object)"
    by (intro exec_select_unknown) simp_all
  then show "stores (exec Get I program (SelectExpr exprId Operand Field')
      (cursor, currActivation, m)) cursor currActivation m exprId object"
    by (intro stores_setValue [of _ _ _ m]) simp_all
next
  assume h: "value m Operand = Unknown unknown \<and> ResolveReference currActivation exprId = None \<and>
    (\<forall>arg \<in> set unknown. segment program m arg \<noteq> None) \<and>
    packager I (qualified_name program m unknown Field') = cpre @ cand # cpost \<and>
    (\<forall>c \<in> set cpre. ResolveName m currActivation c = None \<and>
                     FindIdent (typeProvider I) c = None) \<and>
    ResolveName m currActivation cand = None \<and>
    FindIdent (typeProvider I) cand = Some object"
  then have "resolveUnknown_candidates I m currActivation
      (packager I (qualified_name program m unknown Field')) = Some object"
    using resolveUnknown_candidates_first [of cpre m currActivation I cand cpost] by simp
  with h have "resolveUnknown I program unknown exprId Field' currActivation m =
      Inr (setValue m exprId object)"
    using resolveUnknown_valid [of currActivation exprId unknown program m I Field'] by simp
  with h have "exec Get I program (SelectExpr exprId Operand Field') (cursor, currActivation, m) =
      Inr (cursor, currActivation, setValue m exprId object)"
    by (intro exec_select_unknown) simp_all
  then show "stores (exec Get I program (SelectExpr exprId Operand Field')
      (cursor, currActivation, m)) cursor currActivation m exprId object"
    by (intro stores_setValue [of _ _ _ m]) simp_all
next
  assume h: "value m Operand = Unknown unknown \<and> ResolveReference currActivation exprId = None \<and>
    (\<forall>arg \<in> set unknown. segment program m arg \<noteq> None) \<and>
    (\<forall>c \<in> set (packager I (qualified_name program m unknown Field')).
        ResolveName m currActivation c = None \<and> FindIdent (typeProvider I) c = None)"
  then have "resolveUnknown_candidates I m currActivation
      (packager I (qualified_name program m unknown Field')) = None"
    by (intro resolveUnknown_candidates_none) simp
  with h have "resolveUnknown I program unknown exprId Field' currActivation m =
      Inr (setValue m exprId (Unknown (exprId # unknown)))"
    using resolveUnknown_valid [of currActivation exprId unknown program m I Field'] by simp
  with h have "exec Get I program (SelectExpr exprId Operand Field') (cursor, currActivation, m) =
      Inr (cursor, currActivation, setValue m exprId (Unknown (exprId # unknown)))"
    by (intro exec_select_unknown) simp_all
  then show "stores (exec Get I program (SelectExpr exprId Operand Field')
      (cursor, currActivation, m)) cursor currActivation m exprId (Unknown (exprId # unknown))"
    by (intro stores_setValue [of _ _ _ m]) simp_all
next
  assume h: "value m Operand = Unknown unknown \<and> ResolveReference currActivation exprId = None \<and>
    (\<exists>arg \<in> set unknown. segment program m arg = None) \<and>
    (\<forall>arg \<in> set unknown. segment program m arg = None \<longrightarrow> value m arg \<noteq> NilValue)"
  then have "resolveUnknown I program unknown exprId Field' currActivation m = Inr m"
    using resolveUnknown_invalid [of currActivation exprId unknown program m I Field'] by blast
  with h show "exec Get I program (SelectExpr exprId Operand Field')
      (cursor, currActivation, m) = Inr (cursor, currActivation, m)"
    by (intro exec_select_unknown) simp_all
qed


theorem exec_select_of_unknown_witness:
  "stores (exec ex_Get ex_interpreter (ex_program [IdentExpr 1 ''y'', SelectExpr 7 1 ''z''])
       (SelectExpr 7 1 ''z'') (0, ex_references, ex_machine [(1, Unknown [1])]))
     0 ex_references (ex_machine [(1, Unknown [1])]) 7 (Int_val 9) \<and>
   stores (exec ex_Get ex_interpreter (ex_program [IdentExpr 1 ''y'', SelectExpr 2 1 ''z''])
       (SelectExpr 2 1 ''z'') (0, ex_references, ex_machine [(1, Unknown [1])]))
     0 ex_references (ex_machine [(1, Unknown [1])]) 2 (Int_val 5) \<and>
   stores (exec ex_Get ex_interpreter_pkg (ex_program [IdentExpr 1 ''y'', SelectExpr 2 1 ''z''])
       (SelectExpr 2 1 ''z'') (0, ex_root, ex_machine [(1, Unknown [1])]))
     0 ex_root (ex_machine [(1, Unknown [1])]) 2 (Int_val 8) \<and>
   stores (exec ex_Get ex_interpreter (ex_program [IdentExpr 1 ''y'', SelectExpr 2 1 ''z''])
       (SelectExpr 2 1 ''z'') (0, ex_root, ex_machine [(1, Unknown [1])]))
     0 ex_root (ex_machine [(1, Unknown [1])]) 2 (Unknown [2, 1]) \<and>
   exec ex_Get ex_interpreter (ex_program [CallExpr 1 ''f'' [] False, SelectExpr 2 1 ''z''])
     (SelectExpr 2 1 ''z'') (0, ex_root, ex_machine []) = Inr (0, ex_root, ex_machine [])"
proof -
  let ?m = "ex_machine [(1, Unknown [1])]"
  let ?p = "ex_program [IdentExpr 1 ''y'', SelectExpr 2 1 ''z'']"
  let ?p7 = "ex_program [IdentExpr 1 ''y'', SelectExpr 7 1 ''z'']"
  let ?q = "ex_program [CallExpr 1 ''f'' [] False, SelectExpr 2 1 ''z'']"
  have v: "value ?m 1 = Unknown [1]" "value (ex_machine []) 1 = Unknown [1]"
    by (simp_all add: value_def Value_def ex_machine_def)
  have seg: "segment ?p ?m 1 = Some ''y''"
    by (simp add: segment_def GetInstruction_def ex_program_def)
  have name: "qualified_name ?p ?m [1] ''z'' = ''y.z''"
    by (simp add: seg)
  have noseg: "segment ?q (ex_machine []) 1 = None"
    by (simp add: segment_def GetInstruction_def ex_program_def v)
  have a: "value ?m 1 = Unknown [1] \<and> ResolveReference ex_references 7 = Some (Int_val 9)"
    by (simp add: v ex_references_def)
  have b: "value ?m 1 = Unknown [1] \<and> ResolveReference ex_references 2 = None \<and>
    (\<forall>arg \<in> set [1]. segment ?p ?m arg \<noteq> None) \<and>
    packager ex_interpreter (qualified_name ?p ?m [1] ''z'') = [''pkg.y.z''] @ ''y.z'' # [] \<and>
    (\<forall>c \<in> set [''pkg.y.z'']. ResolveName ?m ex_references c = None \<and>
                     FindIdent (typeProvider ex_interpreter) c = None) \<and>
    ResolveName ?m ex_references ''y.z'' = Some (Int_val 5)"
    by (simp add: v name seg ex_references_def ex_interpreter_def)
  have c: "value ?m 1 = Unknown [1] \<and> ResolveReference ex_root 2 = None \<and>
    (\<forall>arg \<in> set [1]. segment ?p ?m arg \<noteq> None) \<and>
    packager ex_interpreter_pkg (qualified_name ?p ?m [1] ''z'') = [] @ ''pkg.y.z'' # [''y.z''] \<and>
    (\<forall>c \<in> set []. ResolveName ?m ex_root c = None \<and>
                     FindIdent (typeProvider ex_interpreter_pkg) c = None) \<and>
    ResolveName ?m ex_root ''pkg.y.z'' = None \<and>
    FindIdent (typeProvider ex_interpreter_pkg) ''pkg.y.z'' = Some (Int_val 8)"
    by (simp add: v name seg ex_root_def ex_interpreter_pkg_def ex_interpreter_def)
  have d: "value ?m 1 = Unknown [1] \<and> ResolveReference ex_root 2 = None \<and>
    (\<forall>arg \<in> set [1]. segment ?p ?m arg \<noteq> None) \<and>
    (\<forall>c \<in> set (packager ex_interpreter (qualified_name ?p ?m [1] ''z'')).
        ResolveName ?m ex_root c = None \<and> FindIdent (typeProvider ex_interpreter) c = None)"
    by (simp add: v name seg ex_root_def ex_interpreter_def)
  have e: "value (ex_machine []) 1 = Unknown [1] \<and> ResolveReference ex_root 2 = None \<and>
    (\<exists>arg \<in> set [1]. segment ?q (ex_machine []) arg = None) \<and>
    (\<forall>arg \<in> set [1]. segment ?q (ex_machine []) arg = None \<longrightarrow>
        value (ex_machine []) arg \<noteq> NilValue)"
    by (simp add: v noseg ex_root_def)
  note t = exec_select_of_unknown [where Get = ex_Get and cursor = 0 and Operand = 1
      and unknown = "[1]" and Field' = "''z''"]
  have r1: "stores (exec ex_Get ex_interpreter ?p7 (SelectExpr 7 1 ''z'')
      (0, ex_references, ?m)) 0 ex_references ?m 7 (Int_val 9)"
    by (rule mp [OF t [where m = ?m and currActivation = ex_references and exprId = 7
          and object = "Int_val 9", THEN conjunct1] a])
  have r2: "stores (exec ex_Get ex_interpreter ?p (SelectExpr 2 1 ''z'')
      (0, ex_references, ?m)) 0 ex_references ?m 2 (Int_val 5)"
    by (rule mp [OF t [where m = ?m and currActivation = ex_references and exprId = 2
          and I = ex_interpreter and program = ?p and cpre = "[''pkg.y.z'']"
          and cand = "''y.z''" and cpost = "[]" and object = "Int_val 5",
          THEN conjunct2, THEN conjunct1] b])
  have r3: "stores (exec ex_Get ex_interpreter_pkg ?p (SelectExpr 2 1 ''z'')
      (0, ex_root, ?m)) 0 ex_root ?m 2 (Int_val 8)"
    by (rule mp [OF t [where m = ?m and currActivation = ex_root and exprId = 2
          and I = ex_interpreter_pkg and program = ?p and cpre = "[]"
          and cand = "''pkg.y.z''" and cpost = "[''y.z'']" and object = "Int_val 8",
          THEN conjunct2, THEN conjunct2, THEN conjunct1] c])
  have r4: "stores (exec ex_Get ex_interpreter ?p (SelectExpr 2 1 ''z'')
      (0, ex_root, ?m)) 0 ex_root ?m 2 (Unknown (2 # [1]))"
    by (rule mp [OF t [where m = ?m and currActivation = ex_root and exprId = 2
          and I = ex_interpreter and program = ?p,
          THEN conjunct2, THEN conjunct2, THEN conjunct2, THEN conjunct1] d])
  have r5: "exec ex_Get ex_interpreter ?q (SelectExpr 2 1 ''z'') (0, ex_root, ex_machine []) =
      Inr (0, ex_root, ex_machine [])"
    by (rule mp [OF t [where m = "ex_machine []" and currActivation = ex_root and exprId = 2
          and I = ex_interpreter and program = ?q,
          THEN conjunct2, THEN conjunct2, THEN conjunct2, THEN conjunct2] e])
  show ?thesis
    using r1 r2 r3 r4 r5 by (intro conjI)
qed

text \<open>
  C7 as stated fails. A select whose operand is the result of a call that has not run (the
  jump went over it) reads the unknown that carries the call's id; the call is neither an
  \<open>Ident\<close> nor a \<open>Select\<close> and its value is not a string, so the resolution returns with
  nothing stored under the select's id.
\<close>

theorem resolveUnknown_counterexample:
  "value (ex_machine []) 1 = Unknown [1] \<and>
   evalSelect ex_Get ex_interpreter
     (ex_program [CallExpr 1 ''f'' [] False, SelectExpr 2 1 ''z'']) 2 1 ''z'' ex_root
     (ex_machine []) = Inr (ex_machine []) \<and>
   Value (state (ex_machine [])) 2 = None \<and>
   Eval 3 ex_Get ex_interpreter
     (ex_program [JumpInst 1 ex_always 1, CallExpr 2 ''f'' [] False, SelectExpr 3 2 ''z''])
     ex_root (ex_machine []) = Some (Inr (Unknown [3], ex_machine []))"
  by (simp add: Eval_def numeral_3_eq_3 ex_program_def Next_def ex_root_def JumpCount_def
      ex_machine_def evalSelect_def value_def Value_def Let_def ex_always_def resolveUnknown_def
      GetInstruction_def kinds)

text \<open>
  C4 (as amended). For the program \<open>[Ident{1, "y"}, Select{2, operand: 1, field: "z"}]\<close>,
  when the activation binds neither \<open>y\<close> nor any candidate spelling of \<open>y.z\<close>, holds no
  resolved reference for id 2, and the type provider finds neither \<open>y\<close> nor any candidate,
  \<open>Eval\<close> returns, after three calls of \<open>Next\<close>, the unknown whose ids are 2, 1, in that
  order: the id of the select before the id of its operand.
\<close>

theorem Eval_select_of_unbound:
  "(\<forall>m'. ResolveName m' currActivation ''y'' = None) \<Longrightarrow>
   FindIdent (typeProvider I) ''y'' = None \<Longrightarrow>
   ResolveReference currActivation 2 = None \<Longrightarrow>
   (\<forall>c \<in> set (packager I ''y.z'').
      (\<forall>m'. ResolveName m' currActivation c = None) \<and> FindIdent (typeProvider I) c = None) \<Longrightarrow>
   \<exists>m'. Eval (Suc (Suc (Suc fuel))) Get I
          \<lparr>instructions = [IdentExpr 1 ''y'', SelectExpr 2 1 ''z''], Metadata = md\<rparr>
          currActivation m = Some (Inr (Unknown [2, 1], m')) \<and>
        Value (state m') 1 = Some (Unknown [1]) \<and>
        Value (state m') 2 = Some (Unknown [2, 1])"
proof -
  let ?p = "\<lparr>instructions = [IdentExpr 1 ''y'', SelectExpr 2 1 ''z''], Metadata = md\<rparr>"
  let ?m1 = "setValue m 1 (Unknown [1])"
  let ?m2 = "setValue ?m1 2 (Unknown [2, 1])"
  assume y: "\<forall>m'. ResolveName m' currActivation ''y'' = None"
    and fy: "FindIdent (typeProvider I) ''y'' = None"
    and r: "ResolveReference currActivation 2 = None"
    and c: "\<forall>c \<in> set (packager I ''y.z'').
      (\<forall>m'. ResolveName m' currActivation c = None) \<and> FindIdent (typeProvider I) c = None"
  have ident: "evalIdent I 1 ''y'' currActivation m = ?m1"
    using y fy by (simp add: evalIdent_def)
  have v1: "value ?m1 1 = Unknown [1]"
    by (simp add: value_setValue)
  have name: "resolveUnknown_name ?p ?m1 [1] (True, ''z'') = Inr (True, ''y.z'')"
    by (simp add: GetInstruction_def)
  have cand: "resolveUnknown_candidates I ?m1 currActivation (packager I ''y.z'') = None"
    using c by (intro resolveUnknown_candidates_none) simp
  have sel: "evalSelect Get I ?p 2 1 ''z'' currActivation ?m1 = Inr ?m2"
    using r name cand by (simp add: evalSelect_def v1 resolveUnknown_def kinds)
  have n0: "Next ?p 0 = Some (IdentExpr 1 ''y'', 1)"
    and n1: "Next ?p 1 = Some (SelectExpr 2 1 ''z'', 2)"
    and n2: "Next ?p 2 = None"
    by (simp_all add: Next_def)
  have l: "loop (Suc (Suc (Suc fuel))) Get I ?p 0 (0, currActivation, m) = Some (Inr (2, ?m2))"
    using n0 n1 n2 ident sel by simp
  have "Eval (Suc (Suc (Suc fuel))) Get I ?p currActivation m =
      Some (Inr (Unknown [2, 1], ?m2))"
    unfolding Eval_def l by (simp add: value_setValue Let_def)
  then show ?thesis
    by (simp add: Value_setValue)
qed

theorem Eval_select_of_unbound_witness:
  "\<exists>m'. Eval 3 ex_Get ex_interpreter
          \<lparr>instructions = [IdentExpr 1 ''y'', SelectExpr 2 1 ''z''], Metadata = []\<rparr>
          ex_root (ex_machine []) = Some (Inr (Unknown [2, 1], m')) \<and>
        Value (state m') 1 = Some (Unknown [1]) \<and>
        Value (state m') 2 = Some (Unknown [2, 1])"
proof -
  have a: "\<forall>m'. ResolveName m' ex_root ''y'' = None"
    by (simp add: ex_root_def)
  have b: "FindIdent (typeProvider ex_interpreter) ''y'' = None"
    by (simp add: ex_interpreter_def)
  have c: "ResolveReference ex_root 2 = None"
    by (simp add: ex_root_def)
  have d: "\<forall>c \<in> set (packager ex_interpreter ''y.z'').
      (\<forall>m'. ResolveName m' ex_root c = None) \<and> FindIdent (typeProvider ex_interpreter) c = None"
    by (simp add: ex_interpreter_def ex_root_def)
  show ?thesis
    using Eval_select_of_unbound [OF a b c d, of 0 ex_Get "[]" "ex_machine []"]
    by (simp add: numeral_3_eq_3)
qed

text \<open>
  C4 as stated fails: on an input that meets its conditions the ids of the unknown are
  2, 1 and not 1, 2.
\<close>

theorem Eval_select_of_unbound_counterexample:
  "ResolveName (ex_machine []) (MapActivation [] []) ''y'' = None \<and>
   FindIdent (typeProvider ex_interpreter) ''y'' = None \<and>
   ResolveReference (MapActivation [] []) 2 = None \<and>
   packager ex_interpreter ''y.z'' = [''pkg.y.z'', ''y.z''] \<and>
   FindIdent (typeProvider ex_interpreter) ''pkg.y.z'' = None \<and>
   FindIdent (typeProvider ex_interpreter) ''y.z'' = None \<and>
   Eval 3 ex_Get ex_interpreter (ex_program [IdentExpr 1 ''y'', SelectExpr 2 1 ''z''])
     (MapActivation [] []) (ex_machine []) =
     Some (Inr (Unknown [2, 1], ex_machine [(1, Unknown [1]), (2, Unknown [2, 1])])) \<and>
   Unknown [2, 1] \<noteq> Unknown [1, 2]"
  by (simp add: Eval_def numeral_3_eq_3 ex_program_def Next_def ex_interpreter_def
      ex_machine_def evalSelect_def value_def Value_def Let_def resolveUnknown_def
      GetInstruction_def evalIdent_def setValue_def SetValue_def kinds)

section \<open>Scopes\<close>

text \<open>
  C5. A scope that declares \<open>a\<close> as expression 1 and \<open>b\<close> as expression 2, entered when
  the Eval State holds 10 under id 1 and 20 under id 2, followed by a reference to one of the
  names. All the closures of the scope read the one variable \<open>declId\<close>, which after the loop
  holds the id visited last: if the loop visits \<open>a\<close> then \<open>b\<close>, \<open>a\<close> resolves to 20; if it
  visits \<open>b\<close> then \<open>a\<close>, \<open>b\<close> resolves to 10.
\<close>

theorem pushScope_shared_variable:
  "map_option (map_sum id fst)
     (Eval 3 ex_Get ex_interpreter
        (ex_program [PushScopeInst 3 [(''a'', 1), (''b'', 2)], IdentExpr 4 ''a'']) ex_root
        (ex_machine [(1, Int_val 10), (2, Int_val 20)])) = Some (Inr (Int_val 20)) \<and>
   map_option (map_sum id fst)
     (Eval 3 ex_Get ex_interpreter
        (ex_program [PushScopeInst 3 [(''b'', 2), (''a'', 1)], IdentExpr 4 ''b'']) ex_root
        (ex_machine [(1, Int_val 10), (2, Int_val 20)])) = Some (Inr (Int_val 10))"
  by (simp add: Eval_def numeral_3_eq_3 ex_program_def Next_def evalIdent_def ex_root_def
      ex_machine_def setValue_def SetValue_def value_def Value_def Let_def pushScope_def
      NewHierarchicalActivation_def NewActivation_def range_names_def ranged_def)

section \<open>Reads of ids that hold no value\<close>

lemma evalCreateType_fields_first:
  "\<forall>(n, x) \<in> set fpre. \<not> IsError (value m x) \<and> \<not> IsUnknown (value m x) \<Longrightarrow>
   IsError (value m a) \<or> IsUnknown (value m a) \<Longrightarrow>
   evalCreateType_fields m (fpre @ (field, a) # fpost) fields' = Inl (value m a)"
proof (induction fpre arbitrary: fields')
  case Nil
  then show ?case by (simp add: Let_def)
next
  case (Cons e fpre)
  obtain n x where e: "e = (n, x)" by (cases e)
  with Cons.prems have "\<not> IsError (value m x)" "\<not> IsUnknown (value m x)"
    "\<forall>(n, x) \<in> set fpre. \<not> IsError (value m x) \<and> \<not> IsUnknown (value m x)"
    by simp_all
  with Cons.IH Cons.prems(2) e show ?case by (simp add: Let_def)
qed

text \<open>
  After the loop of a scope, every declared name is bound to the closure over the variable
  at \<open>a\<close>, and the variable holds the id visited last.
\<close>

lemma pushScope_declarations_bindings:
  "pushScope_declarations a decls vs child = (vs', child') \<Longrightarrow>
   map_of child' name =
     (if name \<in> fst ` set decls then Some (Lazy a) else map_of child name) \<and>
   (decls \<noteq> [] \<longrightarrow> vs' a = snd (last decls))"
proof (induction decls arbitrary: vs child)
  case Nil
  then show ?case by simp
next
  case (Cons d decls)
  obtain key declId where d: "d = (key, declId)" by (cases d)
  from Cons.prems d
  have r: "pushScope_declarations a decls (vs(a := declId)) (put child key (Lazy a)) = (vs', child')"
    by simp
  from Cons.IH [OF r]
  have ih: "map_of child' name =
      (if name \<in> fst ` set decls then Some (Lazy a)
       else map_of (put child key (Lazy a)) name)"
    and l: "decls \<noteq> [] \<longrightarrow> vs' a = snd (last decls)"
    by simp_all
  have m: "map_of child' name =
      (if name \<in> fst ` set (d # decls) then Some (Lazy a) else map_of child name)"
    using ih d by (simp add: map_of_put)
  have "vs' a = snd (last (d # decls))"
  proof (cases decls)
    case Nil
    with r d show ?thesis by auto
  next
    case (Cons e es)
    with l show ?thesis by simp
  qed
  with m show ?case by simp
qed

lemma resolveUnknown_returns:
  "\<forall>arg \<in> set unknown. segment program m arg = None \<longrightarrow> value m arg \<noteq> NilValue \<Longrightarrow>
   \<exists>m'. resolveUnknown I program unknown exprId Field' currActivation m = Inr m'"
proof -
  assume n: "\<forall>arg \<in> set unknown. segment program m arg = None \<longrightarrow> value m arg \<noteq> NilValue"
  show ?thesis
  proof (cases "ResolveReference currActivation exprId")
    case (Some object)
    then show ?thesis by (simp add: resolveUnknown_def)
  next
    case None
    show ?thesis
    proof (cases "\<forall>arg \<in> set unknown. segment program m arg \<noteq> None")
      case True
      with None show ?thesis
        using resolveUnknown_valid [of currActivation exprId unknown program m I Field'] by simp
    next
      case False
      then have "\<exists>arg \<in> set unknown. segment program m arg = None" by simp
      with None n show ?thesis
        using resolveUnknown_invalid [of currActivation exprId unknown program m I Field']
        by simp
    qed
  qed
qed

text \<open>
  C9. Every instruction that reads an expression id \<open>k\<close> under which the Eval State holds
  no value reads the unknown that carries \<open>k\<close>, and the step returns without a panic: a
  strict call stores that unknown (the arguments before it being neither errors nor
  unknowns) and a call that is not strict passes it to the dispatcher; a select whose operand
  is \<open>k\<close> enters the resolution of the unknown of \<open>k\<close>, which returns; a list constructor,
  a map constructor (for a key and for a value) and an object constructor store it, the
  components met before being concrete; a move whose source is \<open>k\<close> stores it under its
  target; and a name of a scope whose closure reads \<open>k\<close> resolves to it.
\<close>

theorem reads_of_unset_ids:
  "(k \<notin> fst ` set (state m) \<and>
    (\<forall>x \<in> set pre. \<not> IsError (value m x) \<and> \<not> IsUnknown (value m x)) \<longrightarrow>
      stores (exec Get I program (CallExpr exprId Function (pre @ k # post) True)
                (cursor, currActivation, m))
        cursor currActivation m exprId (Unknown [k])) \<and>
   (k \<notin> fst ` set (state m) \<longrightarrow>
      (\<exists>m' ctx. exec Get I program (CallExpr exprId Function (pre @ k # post) False)
                  (cursor, currActivation, m) = Inr (cursor, currActivation, m') \<and>
                dispatched m' = dispatched m @ [ctx] \<and>
                args ctx = map (value m) pre @ Unknown [k] # map (value m) post)) \<and>
   (k \<notin> fst ` set (state m) \<longrightarrow>
      (\<exists>m'. exec Get I program (SelectExpr exprId k Field') (cursor, currActivation, m) =
               Inr (cursor, currActivation, m') \<and>
            resolveUnknown I program [k] exprId Field' currActivation m = Inr m')) \<and>
   (k \<notin> fst ` set (state m) \<and> (\<forall>x \<in> set pre. concrete m x) \<longrightarrow>
      stores (exec Get I program (CreateListExpr exprId (pre @ k # post))
                (cursor, currActivation, m))
        cursor currActivation m exprId (Unknown [k])) \<and>
   (k \<notin> fst ` set (state m) \<and>
    range_ids m KeyValues = kpre @ (k, valueId) # kpost \<and>
    (\<forall>(x, y) \<in> set kpre. concrete m x \<and> concrete m y) \<longrightarrow>
      stores (exec Get I program (CreateMapExpr exprId KeyValues) (cursor, currActivation, m))
        cursor currActivation m exprId (Unknown [k])) \<and>
   (k \<notin> fst ` set (state m) \<and>
    range_ids m KeyValues = kpre @ (keyId, k) # kpost \<and>
    (\<forall>(x, y) \<in> set kpre. concrete m x \<and> concrete m y) \<and> concrete m keyId \<longrightarrow>
      stores (exec Get I program (CreateMapExpr exprId KeyValues) (cursor, currActivation, m))
        cursor currActivation m exprId (Unknown [k])) \<and>
   (k \<notin> fst ` set (state m) \<and>
    range_names m FieldValues = fpre @ (field, k) # fpost \<and>
    (\<forall>(n, x) \<in> set fpre. \<not> IsError (value m x) \<and> \<not> IsUnknown (value m x)) \<longrightarrow>
      stores (exec Get I program (CreateObjectExpr exprId Name FieldValues)
                (cursor, currActivation, m))
        cursor currActivation m exprId (Unknown [k])) \<and>
   (k \<notin> fst ` set (state m) \<longrightarrow>
      stores (exec Get I program (MovInst k ToExprId) (cursor, currActivation, m))
        cursor currActivation m ToExprId (Unknown [k])) \<and>
   (k \<notin> fst ` set (state m) \<and>
    range_names m Declarations = dpre @ [(key, k)] \<and> name \<in> fst ` set Declarations \<longrightarrow>
      (\<exists>child m'. exec Get I program (PushScopeInst exprId Declarations)
                    (cursor, currActivation, m) = Inr (cursor, child, m') \<and>
                  ResolveName m' child name = Some (Unknown [k])))"
proof (intro conjI impI)
  assume h: "k \<notin> fst ` set (state m) \<and>
    (\<forall>x \<in> set pre. \<not> IsError (value m x) \<and> \<not> IsUnknown (value m x))"
  then have u: "value m k = Unknown [k]" by (simp add: value_unset)
  then have "IsError (value m k) \<or> IsUnknown (value m k)" by (simp add: kinds)
  with h have "evalCall_args m True (pre @ k # post) [] = Inl (value m k)"
    using evalCall_args_first [of pre m k post "[]"] by blast
  then have "exec Get I program (CallExpr exprId Function (pre @ k # post) True)
      (cursor, currActivation, m) = Inr (cursor, currActivation, setValue m exprId (Unknown [k]))"
    by (simp add: evalCall_def u)
  then show "stores (exec Get I program (CallExpr exprId Function (pre @ k # post) True)
                (cursor, currActivation, m))
        cursor currActivation m exprId (Unknown [k])"
    by (intro stores_setValue [of _ _ _ m]) simp_all
next
  assume h: "k \<notin> fst ` set (state m)"
  then have u: "value m k = Unknown [k]" by (simp add: value_unset)
  have "evalCall_args m False (pre @ k # post) [] = Inr (map (value m) (pre @ k # post))"
    using evalCall_args_collect [of "pre @ k # post" False m "[]"] by simp
  then show "\<exists>m' ctx. exec Get I program (CallExpr exprId Function (pre @ k # post) False)
                  (cursor, currActivation, m) = Inr (cursor, currActivation, m') \<and>
                dispatched m' = dispatched m @ [ctx] \<and>
                args ctx = map (value m) pre @ Unknown [k] # map (value m) post"
    by (simp add: evalCall_def Let_def dispatched_setValue u)
next
  assume h: "k \<notin> fst ` set (state m)"
  then have u: "value m k = Unknown [k]" by (simp add: value_unset)
  then have "\<forall>arg \<in> set [k]. segment program m arg = None \<longrightarrow> value m arg \<noteq> NilValue"
    by simp
  then obtain m' where r: "resolveUnknown I program [k] exprId Field' currActivation m = Inr m'"
    using resolveUnknown_returns [of "[k]" program m I exprId Field' currActivation] by blast
  with u have "exec Get I program (SelectExpr exprId k Field') (cursor, currActivation, m) =
      Inr (cursor, currActivation, m')"
    by (intro exec_select_unknown) simp_all
  with r show "\<exists>m'. exec Get I program (SelectExpr exprId k Field') (cursor, currActivation, m) =
               Inr (cursor, currActivation, m') \<and>
            resolveUnknown I program [k] exprId Field' currActivation m = Inr m'"
    by blast
next
  assume h: "k \<notin> fst ` set (state m) \<and> (\<forall>x \<in> set pre. concrete m x)"
  then have u: "value m k = Unknown [k]" by (simp add: value_unset)
  then have "IsError (value m k) \<or> IsUnknown (value m k)" by (simp add: kinds)
  with h have "evalCreateList exprId (pre @ k # post) m = Inr (setValue m exprId (value m k))"
    using evalCreateList_first [of pre m k exprId post] by blast
  then show "stores (exec Get I program (CreateListExpr exprId (pre @ k # post))
                (cursor, currActivation, m))
        cursor currActivation m exprId (Unknown [k])"
    by (intro stores_setValue [of _ _ _ m]) (simp_all add: u)
next
  assume h: "k \<notin> fst ` set (state m) \<and>
    range_ids m KeyValues = kpre @ (k, valueId) # kpost \<and>
    (\<forall>(x, y) \<in> set kpre. concrete m x \<and> concrete m y)"
  then have u: "value m k = Unknown [k]" by (simp add: value_unset)
  then have "IsError (value m k) \<or> IsUnknown (value m k)" by (simp add: kinds)
  with h have "evalCreateMap exprId KeyValues m = Inr (setValue (ranged m) exprId (value m k))"
    using evalCreateMap_key [of m KeyValues kpre k valueId kpost exprId] by blast
  then show "stores (exec Get I program (CreateMapExpr exprId KeyValues)
      (cursor, currActivation, m)) cursor currActivation m exprId (Unknown [k])"
    by (intro stores_setValue [of _ _ _ "ranged m"]) (simp_all add: u state_ranged)
next
  assume h: "k \<notin> fst ` set (state m) \<and>
    range_ids m KeyValues = kpre @ (keyId, k) # kpost \<and>
    (\<forall>(x, y) \<in> set kpre. concrete m x \<and> concrete m y) \<and> concrete m keyId"
  then have u: "value m k = Unknown [k]" by (simp add: value_unset)
  then have "IsError (value m k) \<or> IsUnknown (value m k)" by (simp add: kinds)
  with h have "evalCreateMap exprId KeyValues m = Inr (setValue (ranged m) exprId (value m k))"
    using evalCreateMap_value [of m KeyValues kpre keyId k kpost exprId] by blast
  then show "stores (exec Get I program (CreateMapExpr exprId KeyValues)
      (cursor, currActivation, m)) cursor currActivation m exprId (Unknown [k])"
    by (intro stores_setValue [of _ _ _ "ranged m"]) (simp_all add: u state_ranged)
next
  assume h: "k \<notin> fst ` set (state m) \<and>
    range_names m FieldValues = fpre @ (field, k) # fpost \<and>
    (\<forall>(n, x) \<in> set fpre. \<not> IsError (value m x) \<and> \<not> IsUnknown (value m x))"
  then have u: "value m k = Unknown [k]" by (simp add: value_unset)
  then have "IsError (value m k) \<or> IsUnknown (value m k)" by (simp add: kinds)
  with h have "evalCreateType_fields m (range_names m FieldValues) [] = Inl (value m k)"
    using evalCreateType_fields_first [of fpre m k field fpost "[]"] by simp
  then have "exec Get I program (CreateObjectExpr exprId Name FieldValues)
      (cursor, currActivation, m) =
      Inr (cursor, currActivation, setValue (ranged m) exprId (Unknown [k]))"
    by (simp add: evalCreateType_def u)
  then show "stores (exec Get I program (CreateObjectExpr exprId Name FieldValues)
                (cursor, currActivation, m))
        cursor currActivation m exprId (Unknown [k])"
    by (intro stores_setValue [of _ _ _ "ranged m"]) (simp_all add: state_ranged)
next
  assume h: "k \<notin> fst ` set (state m)"
  then have u: "value m k = Unknown [k]" by (simp add: value_unset)
  have "exec Get I program (MovInst k ToExprId) (cursor, currActivation, m) =
      Inr (cursor, currActivation, setValue m ToExprId (Unknown [k]))"
    by (simp add: evalMov_def u)
  then show "stores (exec Get I program (MovInst k ToExprId) (cursor, currActivation, m))
        cursor currActivation m ToExprId (Unknown [k])"
    by (intro stores_setValue [of _ _ _ m]) simp_all
next
  assume h: "k \<notin> fst ` set (state m) \<and>
    range_names m Declarations = dpre @ [(key, k)] \<and> name \<in> fst ` set Declarations"
  then have u: "value m k = Unknown [k]" by (simp add: value_unset)
  let ?a = "fresh m"
  let ?visit = "range_names m Declarations"
  obtain vs child' where p: "pushScope_declarations ?a ?visit (vars m) [] = (vs, child')"
    by (cases "pushScope_declarations ?a ?visit (vars m) []")
  have "set ?visit = set Declarations"
    by (rule set_range_names)
  with h have mem: "name \<in> fst ` set ?visit"
    by (simp del: set_append)
  from h have ne: "?visit \<noteq> []" and la: "snd (last ?visit) = k"
    by simp_all
  from pushScope_declarations_bindings [OF p, of name] mem ne la
  have b: "map_of child' name = Some (Lazy ?a)" and v: "vs ?a = k"
    by simp_all
  let ?m' = "(ranged m)\<lparr>vars := vs, fresh := Suc ?a\<rparr>"
  let ?child = "NewHierarchicalActivation currActivation (NewActivation child')"
  have e: "exec Get I program (PushScopeInst exprId Declarations) (cursor, currActivation, m) =
      Inr (cursor, ?child, ?m')"
    using p by (simp add: pushScope_def Let_def)
  have "value ?m' k = value m k"
    by (simp add: value_def ranged_def)
  then have "ResolveName ?m' ?child name = Some (Unknown [k])"
    using b v u by (simp add: NewHierarchicalActivation_def NewActivation_def)
  with e show "\<exists>child m'. exec Get I program (PushScopeInst exprId Declarations)
                    (cursor, currActivation, m) = Inr (cursor, child, m') \<and>
                  ResolveName m' child name = Some (Unknown [k])"
    by blast
qed


theorem reads_of_unset_ids_witness:
  "stores (exec ex_Get ex_interpreter (ex_program []) (CallExpr 9 ''f'' [1, 6, 2] True)
       (0, ex_root, ex_machine ex_state)) 0 ex_root (ex_machine ex_state) 9 (Unknown [6]) \<and>
   (\<exists>m' ctx. exec ex_Get ex_interpreter (ex_program []) (CallExpr 9 ''f'' [1, 6] False)
        (0, ex_root, ex_machine ex_state) = Inr (0, ex_root, m') \<and>
      dispatched m' = dispatched (ex_machine ex_state) @ [ctx] \<and>
      args ctx = [Int_val 3, Unknown [6]]) \<and>
   (\<exists>m'. exec ex_Get ex_interpreter (ex_program []) (SelectExpr 9 6 ''z'')
        (0, ex_root, ex_machine ex_state) = Inr (0, ex_root, m') \<and>
      resolveUnknown ex_interpreter (ex_program []) [6] 9 ''z'' ex_root (ex_machine ex_state) =
        Inr m') \<and>
   stores (exec ex_Get ex_interpreter (ex_program []) (CreateListExpr 9 [1, 6, 2])
       (0, ex_root, ex_machine ex_state)) 0 ex_root (ex_machine ex_state) 9 (Unknown [6]) \<and>
   stores (exec ex_Get ex_interpreter (ex_program []) (CreateMapExpr 9 [(4, 1), (6, 2)])
       (0, ex_root, ex_machine ex_state)) 0 ex_root (ex_machine ex_state) 9 (Unknown [6]) \<and>
   stores (exec ex_Get ex_interpreter (ex_program []) (CreateMapExpr 9 [(4, 6)])
       (0, ex_root, ex_machine ex_state)) 0 ex_root (ex_machine ex_state) 9 (Unknown [6]) \<and>
   stores (exec ex_Get ex_interpreter (ex_program []) (CreateObjectExpr 9 ''T'' [(''f'', 6)])
       (0, ex_root, ex_machine ex_state)) 0 ex_root (ex_machine ex_state) 9 (Unknown [6]) \<and>
   stores (exec ex_Get ex_interpreter (ex_program []) (MovInst 6 9)
       (0, ex_root, ex_machine ex_state)) 0 ex_root (ex_machine ex_state) 9 (Unknown [6]) \<and>
   (\<exists>child m'. exec ex_Get ex_interpreter (ex_program []) (PushScopeInst 9 [(''v'', 6)])
        (0, ex_root, ex_machine ex_state) = Inr (0, child, m') \<and>
      ResolveName m' child ''v'' = Some (Unknown [6]))"
proof -
  let ?m = "ex_machine ex_state"
  have u: "6 \<notin> fst ` set (state ?m)"
    by (simp add: ex_machine_def ex_state_def)
  have a: "6 \<notin> fst ` set (state ?m) \<and>
    (\<forall>x \<in> set [1]. \<not> IsError (value ?m x) \<and> \<not> IsUnknown (value ?m x))"
    using u by (simp add: ex_state_values kinds)
  have d: "6 \<notin> fst ` set (state ?m) \<and> (\<forall>x \<in> set [1]. concrete ?m x)"
    using u by (simp add: ex_state_kinds)
  have e: "6 \<notin> fst ` set (state ?m) \<and>
    range_ids ?m [(4, 1), (6, 2)] = [(4, 1)] @ (6, 2) # [] \<and>
    (\<forall>(x, y) \<in> set [(4, 1)]. concrete ?m x \<and> concrete ?m y)"
    using u by (simp add: ex_state_kinds ex_range_ids)
  have f: "6 \<notin> fst ` set (state ?m) \<and>
    range_ids ?m [(4, 6)] = [] @ (4, 6) # [] \<and>
    (\<forall>(x, y) \<in> set []. concrete ?m x \<and> concrete ?m y) \<and> concrete ?m 4"
    using u by (simp add: ex_state_kinds ex_range_ids)
  have g: "6 \<notin> fst ` set (state ?m) \<and>
    range_names ?m [(''f'', 6)] = [] @ (''f'', 6) # [] \<and>
    (\<forall>(n, x) \<in> set []. \<not> IsError (value ?m x) \<and> \<not> IsUnknown (value ?m x))"
    using u by (simp add: ex_range_names)
  have i: "6 \<notin> fst ` set (state ?m) \<and>
    range_names ?m [(''v'', 6)] = [] @ [(''v'', 6)] \<and> ''v'' \<in> fst ` set [(''v'', 6 :: int)]"
    using u by (simp add: ex_range_names)
  note t = reads_of_unset_ids [where Get = ex_Get and I = ex_interpreter
      and program = "ex_program []" and cursor = 0 and currActivation = ex_root and m = ?m
      and k = 6 and exprId = 9]
  have r1: "stores (exec ex_Get ex_interpreter (ex_program [])
      (CallExpr 9 ''f'' ([1] @ 6 # [2]) True) (0, ex_root, ?m)) 0 ex_root ?m 9 (Unknown [6])"
    by (rule mp [OF t [where pre = "[1]" and post = "[2]" and Function = "''f''",
          THEN conjunct1] a])
  have r2: "\<exists>m' ctx. exec ex_Get ex_interpreter (ex_program [])
        (CallExpr 9 ''f'' ([1] @ 6 # []) False) (0, ex_root, ?m) = Inr (0, ex_root, m') \<and>
      dispatched m' = dispatched ?m @ [ctx] \<and>
      args ctx = map (value ?m) [1] @ Unknown [6] # map (value ?m) []"
    by (rule mp [OF t [where pre = "[1]" and post = "[]" and Function = "''f''",
          THEN conjunct2, THEN conjunct1] u])
  have r3: "\<exists>m'. exec ex_Get ex_interpreter (ex_program []) (SelectExpr 9 6 ''z'')
        (0, ex_root, ?m) = Inr (0, ex_root, m') \<and>
      resolveUnknown ex_interpreter (ex_program []) [6] 9 ''z'' ex_root ?m = Inr m'"
    by (rule mp [OF t [where Field' = "''z''", THEN conjunct2, THEN conjunct2, THEN conjunct1] u])
  have r4: "stores (exec ex_Get ex_interpreter (ex_program [])
      (CreateListExpr 9 ([1] @ 6 # [2])) (0, ex_root, ?m)) 0 ex_root ?m 9 (Unknown [6])"
    by (rule mp [OF t [where pre = "[1]" and post = "[2]", THEN conjunct2, THEN conjunct2, THEN conjunct2, THEN conjunct1] d])
  have r5: "stores (exec ex_Get ex_interpreter (ex_program [])
      (CreateMapExpr 9 [(4, 1), (6, 2)]) (0, ex_root, ?m)) 0 ex_root ?m 9 (Unknown [6])"
    by (rule mp [OF t [where KeyValues = "[(4, 1), (6, 2)]" and kpre = "[(4, 1)]"
          and valueId = 2 and kpost = "[]", THEN conjunct2, THEN conjunct2, THEN conjunct2, THEN conjunct2, THEN conjunct1] e])
  have r6: "stores (exec ex_Get ex_interpreter (ex_program [])
      (CreateMapExpr 9 [(4, 6)]) (0, ex_root, ?m)) 0 ex_root ?m 9 (Unknown [6])"
    by (rule mp [OF t [where KeyValues = "[(4, 6)]" and kpre = "[]"
          and keyId = 4 and kpost = "[]", THEN conjunct2, THEN conjunct2, THEN conjunct2, THEN conjunct2, THEN conjunct2, THEN conjunct1] f])
  have r7: "stores (exec ex_Get ex_interpreter (ex_program [])
      (CreateObjectExpr 9 ''T'' [(''f'', 6)]) (0, ex_root, ?m)) 0 ex_root ?m 9 (Unknown [6])"
    by (rule mp [OF t [where FieldValues = "[(''f'', 6)]" and fpre = "[]" and field = "''f''"
          and fpost = "[]" and Name = "''T''", THEN conjunct2, THEN conjunct2, THEN conjunct2, THEN conjunct2, THEN conjunct2, THEN conjunct2, THEN conjunct1] g])
  have r8: "stores (exec ex_Get ex_interpreter (ex_program [])
      (MovInst 6 9) (0, ex_root, ?m)) 0 ex_root ?m 9 (Unknown [6])"
    by (rule mp [OF t [where ToExprId = 9, THEN conjunct2, THEN conjunct2, THEN conjunct2, THEN conjunct2, THEN conjunct2, THEN conjunct2, THEN conjunct2, THEN conjunct1] u])
  have r9: "\<exists>child m'. exec ex_Get ex_interpreter (ex_program [])
        (PushScopeInst 9 [(''v'', 6)]) (0, ex_root, ?m) = Inr (0, child, m') \<and>
      ResolveName m' child ''v'' = Some (Unknown [6])"
    by (rule mp [OF t [where Declarations = "[(''v'', 6)]" and dpre = "[]" and key = "''v''"
          and name = "''v''", THEN conjunct2, THEN conjunct2, THEN conjunct2, THEN conjunct2, THEN conjunct2, THEN conjunct2, THEN conjunct2, THEN conjunct2] i])
  have s1: "stores (exec ex_Get ex_interpreter (ex_program [])
      (CallExpr 9 ''f'' [1, 6, 2] True) (0, ex_root, ?m)) 0 ex_root ?m 9 (Unknown [6])"
    using r1 by (simp only: append_Cons append_Nil)
  have s2: "\<exists>m' ctx. exec ex_Get ex_interpreter (ex_program [])
        (CallExpr 9 ''f'' [1, 6] False) (0, ex_root, ?m) = Inr (0, ex_root, m') \<and>
      dispatched m' = dispatched ?m @ [ctx] \<and> args ctx = [Int_val 3, Unknown [6]]"
    using r2 by (simp only: append_Cons append_Nil list.map ex_state_values)
  have s4: "stores (exec ex_Get ex_interpreter (ex_program [])
      (CreateListExpr 9 [1, 6, 2]) (0, ex_root, ?m)) 0 ex_root ?m 9 (Unknown [6])"
    using r4 by (simp only: append_Cons append_Nil)
  show ?thesis
    using s1 s2 r3 s4 r5 r6 r7 r8 r9 by (intro conjI)
qed

section \<open>The result of an evaluation\<close>


end
